theory Spec2Isabelle
  imports Main "HOL-Library.AList"
begin

section \<open>Values of the configuration engine\<close>

text \<open>
  The development embeds \<^verbatim>\<open>libraries/heft-config-file/src/ConfigurationFile.ts\<close>.

  A JavaScript value that can occur in a loaded configuration is a \<open>jvalue\<close>. Arrays and
  plain objects carry, next to their own properties, the optional record stored under the hidden
  symbol key \<^verbatim>\<open>CONFIGURATION_FILE_FIELD_ANNOTATION\<close>: the pair of
  \<^verbatim>\<open>configurationFilePath\<close> (a string or undefined) and \<^verbatim>\<open>originalValues\<close>
  (a plain object, kept as its property list). A property list is the list of own enumerable
  string-keyed properties in the order in which they were inserted. Two things of ECMAScript are not
  represented: canonical array-index keys of plain objects are enumerated before the other keys,
  and a property read also consults \<^verbatim>\<open>Object.prototype\<close>. Numbers are integers, which
  is enough to tell zero (falsy) from non-zero.
\<close>

datatype jvalue =
    JUndefined
  | JNull
  | JBool bool
  | JNum int
  | JStr string
  | JArr "jvalue list" "(string option \<times> (string \<times> jvalue) list) option"
  | JObj "(string \<times> jvalue) list" "(string option \<times> (string \<times> jvalue) list) option"

type_synonym properties = "(string \<times> jvalue) list"
type_synonym annotation = "string option \<times> properties"

text \<open>
  One constructor per \<^verbatim>\<open>throw\<close> site of the source, carrying the values interpolated
  into the message:
  \<^item> \<open>NotExist\<close>: the file system error for which \<^verbatim>\<open>FileSystem.isNotExistError\<close>
    holds; after the loader's \<^verbatim>\<open>catch\<close> its message is "File does not exist: path";
  \<^item> \<open>IoError\<close>: any other failure of reading a file;
  \<^item> \<open>LoopDetected\<close>: "A loop has been detected in the "extends" properties ...";
  \<^item> \<open>ParseFailed\<close>: "In config file ...: ...";
  \<^item> \<open>ExtendsUnresolved\<close>: "In file ..., file referenced in "extends" property (...) cannot be resolved.";
  \<^item> \<open>SchemaMismatch\<close>: "Resolved configuration object does not match schema: ...";
  \<^item> \<open>DirectiveNoTarget\<close>, \<open>DirectiveNotString\<close>, \<open>DirectiveTargetNotObject\<close>,
    \<open>DirectiveUnsupported\<close>: the four messages of the first pass over the merge behavior keys;
  \<^item> \<open>AppendNotArray\<close>, \<open>MergeNull\<close>, \<open>MergePrimitive\<close>, \<open>MergeNotKeyed\<close>,
    \<open>CustomFunctionMissing\<close>, \<open>UnknownInheritanceType\<close>: the messages of the second pass;
  \<^item> \<open>TypeError\<close>: the runtime's own error for reading a property of null or undefined;
  \<^item> \<open>CollaboratorError\<close>: whatever a caller-supplied function or an external library raises.
\<close>

datatype error =
    NotExist string
  | IoError string
  | LoopDetected string
  | ParseFailed string string
  | ExtendsUnresolved string jvalue
  | SchemaMismatch string
  | DirectiveNoTarget string
  | DirectiveNotString string jvalue
  | DirectiveTargetNotObject string
  | DirectiveUnsupported string string
  | AppendNotArray string
  | MergeNull string
  | MergePrimitive string
  | MergeNotKeyed string
  | CustomFunctionMissing
  | UnknownInheritanceType
  | TypeError
  | CollaboratorError string

datatype inheritanceType = Append | Merge | Replace | Custom | Unrecognized

datatype propertyInheritance =
  PropertyInheritance (inheritanceType: inheritanceType)
    (inheritanceFunction: "(jvalue \<Rightarrow> jvalue \<Rightarrow> error + jvalue) option")

section \<open>JavaScript primitives used by the merge\<close>

text \<open>
  \<open>natToString\<close> is the decimal spelling of an array index as a property key;
  \<open>toLowerCase\<close> lowers the letters A to Z and leaves every other character alone, which decides
  equality with the three keywords exactly as \<^verbatim>\<open>String.prototype.toLowerCase\<close> does.
\<close>

definition digitChar :: "nat \<Rightarrow> char" where
  "digitChar d = ''0123456789'' ! d"

fun natToString :: "nat \<Rightarrow> string" where
  "natToString n = (if n < 10 then [digitChar n] else natToString (n div 10) @ [digitChar (n mod 10)])"

declare natToString.simps [simp del]

definition toLowerChar :: "char \<Rightarrow> char" where
  "toLowerChar c =
     (case map_of (zip ''ABCDEFGHIJKLMNOPQRSTUVWXYZ'' ''abcdefghijklmnopqrstuvwxyz'') c of
        Some l \<Rightarrow> l | None \<Rightarrow> c)"

definition toLowerCase :: "string \<Rightarrow> string" where
  "toLowerCase s = map toLowerChar s"

fun truthy :: "jvalue \<Rightarrow> bool" where
  "truthy JUndefined = False"
| "truthy JNull = False"
| "truthy (JBool b) = b"
| "truthy (JNum n) = (n \<noteq> 0)"
| "truthy (JStr s) = (s \<noteq> [])"
| "truthy (JArr xs a) = True"
| "truthy (JObj ps a) = True"

fun typeofObject :: "jvalue \<Rightarrow> bool" where
  "typeofObject JNull = True"
| "typeofObject (JArr xs a) = True"
| "typeofObject (JObj ps a) = True"
| "typeofObject v = False"

fun isArray :: "jvalue \<Rightarrow> bool" where
  "isArray (JArr xs a) = True"
| "isArray v = False"

text \<open>
  \<open>ownEntries\<close> is \<^verbatim>\<open>Object.entries\<close>: the properties of an object, the indexed
  elements of an array, the indexed characters of a string, nothing for the other primitives.
  \<open>orEmptyObject v\<close> is the source's \<^verbatim>\<open>(v || {})\<close>, and \<open>getProp v k\<close> its
  \<^verbatim>\<open>(v || {})[k]\<close>, with \<open>JUndefined\<close> for a key that is not there.
\<close>

definition indexed :: "jvalue list \<Rightarrow> properties" where
  "indexed xs = zip (map natToString [0..<length xs]) xs"

fun ownEntries :: "jvalue \<Rightarrow> properties" where
  "ownEntries (JObj ps a) = ps"
| "ownEntries (JArr xs a) = indexed xs"
| "ownEntries (JStr s) = indexed (map (\<lambda>c. JStr [c]) s)"
| "ownEntries v = []"

definition orEmptyObject :: "jvalue \<Rightarrow> properties" where
  "orEmptyObject v = (if truthy v then ownEntries v else [])"

definition objectKeys :: "jvalue \<Rightarrow> string list" where
  "objectKeys v = map fst (orEmptyObject v)"

definition getProp :: "jvalue \<Rightarrow> string \<Rightarrow> jvalue" where
  "getProp v k = (case map_of (orEmptyObject v) k of Some x \<Rightarrow> x | None \<Rightarrow> JUndefined)"

fun annotationOf :: "jvalue \<Rightarrow> annotation option" where
  "annotationOf (JObj ps a) = a"
| "annotationOf (JArr xs a) = a"
| "annotationOf v = None"

fun arrayElements :: "jvalue \<Rightarrow> jvalue list" where
  "arrayElements (JArr xs a) = xs"
| "arrayElements v = []"

section \<open>Provenance accessors and the annotator\<close>

definition getObjectSourceFilePath :: "jvalue \<Rightarrow> string option" where
  "getObjectSourceFilePath obj = (case annotationOf obj of Some a \<Rightarrow> fst a | None \<Rightarrow> None)"

definition getPropertyOriginalValue :: "jvalue \<Rightarrow> string \<Rightarrow> error + jvalue" where
  "getPropertyOriginalValue parentObject propertyName =
     (if parentObject = JUndefined \<or> parentObject = JNull then Inl TypeError
      else (case annotationOf parentObject of
              Some a \<Rightarrow> (case map_of (snd a) propertyName of
                           Some v \<Rightarrow> Inr v
                         | None \<Rightarrow> Inr JUndefined)
            | None \<Rightarrow> Inr JUndefined))"

text \<open>
  \<open>spread a b\<close> is the object literal \<^verbatim>\<open>{ ...a, ...b }\<close>: the entries of \<open>a\<close>,
  then each entry of \<open>b\<close> assigned in turn (overwriting in place, or added at the end).
\<close>

definition spread :: "properties \<Rightarrow> properties \<Rightarrow> properties" where
  "spread a b = fold (\<lambda>(k, v) acc. AList.update k v acc) b a"

text \<open>
  \<^verbatim>\<open>_annotateProperties\<close> mutates the parsed object graph in place. The shallow copy
  \<^verbatim>\<open>{ ...obj }\<close> that becomes \<open>originalValues\<close> holds the very same child objects
  as \<open>obj\<close>, and these children receive their own annotation right afterwards; the function
  below returns the graph as it is once the traversal has finished, so the copies hold the
  annotated children.
\<close>

fun annotateProperties :: "string \<Rightarrow> jvalue \<Rightarrow> jvalue" where
  "annotateProperties path (JObj ps ann) =
     (let ps' = map (\<lambda>(k, v). (k, annotateProperties path v)) ps
      in JObj ps' (Some (Some path, ps')))"
| "annotateProperties path (JArr xs ann) =
     (let xs' = map (annotateProperties path) xs
      in JArr xs' (Some (Some path, indexed xs')))"
| "annotateProperties path v = v"

section \<open>The merger\<close>

text \<open>
  \<open>mergeBehaviorTarget\<close> is the match of the regular expression
  \<^verbatim>\<open>/^\$([^\.]+)\.mergeBehavior$/\<close>: a dollar sign, a non-empty run of characters other
  than a dot, and the literal suffix; the result is the captured group.
  \<open>parseMergeBehavior\<close> is the body of the first loop of \<^verbatim>\<open>_mergeObjects\<close> for a
  key that matched, \<open>gatherMergeBehaviors\<close> the loop itself with its two accumulators, and
  \<open>dedupe\<close> the insertion order of \<^verbatim>\<open>new Set([...])\<close>.
\<close>

definition mergeBehaviorTarget :: "string \<Rightarrow> string option" where
  "mergeBehaviorTarget propertyName =
     (case propertyName of
        [] \<Rightarrow> None
      | c # rest \<Rightarrow>
          if c = CHR ''$''
             \<and> takeWhile (\<lambda>d. d \<noteq> CHR ''.'') rest \<noteq> []
             \<and> dropWhile (\<lambda>d. d \<noteq> CHR ''.'') rest = ''.mergeBehavior''
          then Some (takeWhile (\<lambda>d. d \<noteq> CHR ''.'') rest)
          else None)"

definition parseMergeBehavior :: "jvalue \<Rightarrow> string \<Rightarrow> string \<Rightarrow> error + propertyInheritance" where
  "parseMergeBehavior currentObject propertyName mergeTargetPropertyName =
     (let mergeBehaviorRaw = getProp currentObject propertyName in
      if mergeTargetPropertyName \<notin> set (objectKeys currentObject)
      then Inl (DirectiveNoTarget propertyName)
      else (case mergeBehaviorRaw of
              JStr s \<Rightarrow>
                if \<not> typeofObject (getProp currentObject mergeTargetPropertyName)
                then Inl (DirectiveTargetNotObject propertyName)
                else if toLowerCase s = ''append'' then Inr (PropertyInheritance Append None)
                else if toLowerCase s = ''merge'' then Inr (PropertyInheritance Merge None)
                else if toLowerCase s = ''replace'' then Inr (PropertyInheritance Replace None)
                else Inl (DirectiveUnsupported propertyName s)
            | _ \<Rightarrow> Inl (DirectiveNotString propertyName mergeBehaviorRaw)))"

fun gatherMergeBehaviors ::
  "jvalue \<Rightarrow> string set \<Rightarrow> string list \<Rightarrow> string list \<Rightarrow> (string \<rightharpoonup> propertyInheritance)
    \<Rightarrow> error + (string list \<times> (string \<rightharpoonup> propertyInheritance))" where
  "gatherMergeBehaviors currentObject ignoreProperties [] filtered mergeBehaviorMap =
     Inr (filtered, mergeBehaviorMap)"
| "gatherMergeBehaviors currentObject ignoreProperties (propertyName # rest) filtered mergeBehaviorMap =
     (if propertyName \<in> ignoreProperties
      then gatherMergeBehaviors currentObject ignoreProperties rest filtered mergeBehaviorMap
      else (case mergeBehaviorTarget propertyName of
              Some target \<Rightarrow>
                (case parseMergeBehavior currentObject propertyName target of
                   Inl e \<Rightarrow> Inl e
                 | Inr b \<Rightarrow> gatherMergeBehaviors currentObject ignoreProperties rest filtered
                             (mergeBehaviorMap(target \<mapsto> b)))
            | None \<Rightarrow> gatherMergeBehaviors currentObject ignoreProperties rest
                        (filtered @ [propertyName]) mergeBehaviorMap))"

fun dedupe :: "string list \<Rightarrow> string list" where
  "dedupe [] = []"
| "dedupe (x # xs) = x # dedupe (filter (\<lambda>y. y \<noteq> x) xs)"

definition effectiveInheritance ::
  "(string \<rightharpoonup> propertyInheritance) \<Rightarrow> (string \<rightharpoonup> propertyInheritance) \<Rightarrow> jvalue \<Rightarrow> jvalue \<Rightarrow> string
     \<Rightarrow> propertyInheritance" where
  "effectiveInheritance mergeBehaviorMap configuredPropertyInheritance propertyValue parentPropertyValue propertyName =
     (case mergeBehaviorMap propertyName of
        Some b \<Rightarrow> b
      | None \<Rightarrow>
          (case configuredPropertyInheritance propertyName of
             Some c \<Rightarrow> c
           | None \<Rightarrow>
               if isArray propertyValue \<and> isArray parentPropertyValue
               then PropertyInheritance Append None
               else PropertyInheritance Replace None))"

text \<open>
  \<open>useValueOf currentObject\<close> is the closure \<^verbatim>\<open>usePropertyValue\<close> and
  \<open>useValueOf parentObject\<close> the closure \<^verbatim>\<open>useParentPropertyValue\<close>: the new value
  together with the entry written to the result's \<open>originalValues\<close>. The second component of
  a step is \<open>None\<close> on the paths of the source that write no such entry.
\<close>

definition useValueOf :: "jvalue \<Rightarrow> string \<Rightarrow> jvalue \<Rightarrow> error + (jvalue \<times> jvalue option)" where
  "useValueOf sourceObject propertyName v =
     (case getPropertyOriginalValue sourceObject propertyName of
        Inl e \<Rightarrow> Inl e
      | Inr original \<Rightarrow> Inr (v, Some original))"

lemma size_property:
  "(k, x) \<in> set ps \<Longrightarrow> size x < Suc (size_list (size_prod (\<lambda>_. 0) size) ps)"
  by (induction ps) auto

lemma size_element:
  "x \<in> set xs \<Longrightarrow> size x < Suc (size_list size xs)"
  by (induction xs) auto

lemma indexed_element: "map_of (indexed xs) k = Some x \<Longrightarrow> x \<in> set xs"
  unfolding indexed_def by (meson map_of_SomeD set_zip_rightD)

lemma size_getProp:
  "getProp v k \<noteq> JUndefined \<Longrightarrow> \<not> (truthy (getProp v k) \<and> \<not> typeofObject (getProp v k))
     \<Longrightarrow> size (getProp v k) < size v"
proof (cases v)
  case (JStr s)
  assume d: "getProp v k \<noteq> JUndefined"
    and t: "\<not> (truthy (getProp v k) \<and> \<not> typeofObject (getProp v k))"
  from d JStr obtain x where x: "map_of (indexed (map (\<lambda>c. JStr [c]) s)) k = Some x" "getProp v k = x"
    by (auto simp: getProp_def orEmptyObject_def split: option.splits if_splits)
  from indexed_element[OF x(1)] obtain c where "x = JStr [c]" by auto
  with t x(2) show ?thesis by simp
next
  case (JArr xs a)
  assume d: "getProp v k \<noteq> JUndefined"
  from d JArr obtain x where x: "map_of (indexed xs) k = Some x" "getProp v k = x"
    by (auto simp: getProp_def orEmptyObject_def split: option.splits)
  from size_element[OF indexed_element[OF x(1)]] x(2) JArr show ?thesis by simp
next
  case (JObj ps a)
  assume d: "getProp v k \<noteq> JUndefined"
  from d JObj obtain x where x: "map_of ps k = Some x" "getProp v k = x"
    by (auto simp: getProp_def orEmptyObject_def split: option.splits)
  from size_property[OF map_of_SomeD[OF x(1)]] x(2) JObj show ?thesis by simp
qed (auto simp: getProp_def orEmptyObject_def split: if_splits)

lemma size_getProp_le: "size (getProp v k) \<le> size v \<or> (truthy (getProp v k) \<and> \<not> typeofObject (getProp v k))"
proof (cases "getProp v k = JUndefined")
  case True
  then show ?thesis by simp
next
  case False
  show ?thesis
  proof (cases "truthy (getProp v k) \<and> \<not> typeofObject (getProp v k)")
    case True
    then show ?thesis by blast
  next
    case nt: False
    from size_getProp[OF False nt] show ?thesis by simp
  qed
qed

text \<open>
  \<^verbatim>\<open>_mergeObjects\<close>: \<open>mergeProperties\<close> is its second loop, threading the result's
  properties and \<open>originalValues\<close>, and \<open>mergeProperty\<close> the body of that loop. An absent
  \<open>parentObject\<close> or \<open>currentObject\<close> is \<open>JUndefined\<close>; absent
  \<open>configuredPropertyInheritance\<close> and \<open>ignoreProperties\<close> are the empty map and set.
\<close>

function mergeObjects ::
    "jvalue \<Rightarrow> jvalue \<Rightarrow> string \<Rightarrow> (string \<rightharpoonup> propertyInheritance) \<Rightarrow> string set \<Rightarrow> error + jvalue"
  and mergeProperties ::
    "jvalue \<Rightarrow> jvalue \<Rightarrow> string \<Rightarrow> (string \<rightharpoonup> propertyInheritance) \<Rightarrow> (string \<rightharpoonup> propertyInheritance)
      \<Rightarrow> string list \<Rightarrow> properties \<Rightarrow> properties \<Rightarrow> error + (properties \<times> properties)"
  and mergeProperty ::
    "jvalue \<Rightarrow> jvalue \<Rightarrow> string \<Rightarrow> (string \<rightharpoonup> propertyInheritance) \<Rightarrow> (string \<rightharpoonup> propertyInheritance)
      \<Rightarrow> string \<Rightarrow> error + (jvalue \<times> jvalue option)"
where
  "mergeObjects parentObject currentObject resolvedConfigurationFilePath configuredPropertyInheritance ignoreProperties =
     (case gatherMergeBehaviors currentObject ignoreProperties (objectKeys currentObject) [] Map.empty of
        Inl e \<Rightarrow> Inl e
      | Inr (filteredObjectPropertyNames, mergeBehaviorMap) \<Rightarrow>
          (case mergeProperties parentObject currentObject resolvedConfigurationFilePath
                  configuredPropertyInheritance mergeBehaviorMap
                  (dedupe (objectKeys parentObject @ filteredObjectPropertyNames)) [] [] of
             Inl e \<Rightarrow> Inl e
           | Inr (resultProperties, originalValues) \<Rightarrow>
               Inr (JObj resultProperties (Some (Some resolvedConfigurationFilePath, originalValues)))))"
| "mergeProperties parentObject currentObject resolvedConfigurationFilePath configuredPropertyInheritance
      mergeBehaviorMap propertyNames resultProperties originalValues =
     (case propertyNames of
        [] \<Rightarrow> Inr (resultProperties, originalValues)
      | propertyName # rest \<Rightarrow>
          (case mergeProperty parentObject currentObject resolvedConfigurationFilePath
                  configuredPropertyInheritance mergeBehaviorMap propertyName of
             Inl e \<Rightarrow> Inl e
           | Inr (newValue, original) \<Rightarrow>
               mergeProperties parentObject currentObject resolvedConfigurationFilePath
                 configuredPropertyInheritance mergeBehaviorMap rest
                 (AList.update propertyName newValue resultProperties)
                 (case original of
                    Some v \<Rightarrow> AList.update propertyName v originalValues
                  | None \<Rightarrow> originalValues)))"
| "mergeProperty parentObject currentObject resolvedConfigurationFilePath configuredPropertyInheritance
      mergeBehaviorMap propertyName =
     (let propertyValue = getProp currentObject propertyName;
          parentPropertyValue = getProp parentObject propertyName;
          propertyInheritance = effectiveInheritance mergeBehaviorMap configuredPropertyInheritance
                                  propertyValue parentPropertyValue propertyName
      in
      if propertyValue \<noteq> JUndefined \<and> parentPropertyValue = JUndefined
      then useValueOf currentObject propertyName propertyValue
      else if parentPropertyValue \<noteq> JUndefined \<and> propertyValue = JUndefined
      then useValueOf parentObject propertyName parentPropertyValue
      else (case inheritanceType propertyInheritance of
              Replace \<Rightarrow>
                if propertyValue \<noteq> JUndefined
                then useValueOf currentObject propertyName propertyValue
                else useValueOf parentObject propertyName parentPropertyValue
            | Append \<Rightarrow>
                if propertyValue \<noteq> JUndefined \<and> parentPropertyValue = JUndefined
                then useValueOf currentObject propertyName propertyValue
                else if propertyValue = JUndefined \<and> parentPropertyValue \<noteq> JUndefined
                then useValueOf parentObject propertyName parentPropertyValue
                else if \<not> isArray propertyValue \<or> \<not> isArray parentPropertyValue
                then Inl (AppendNotArray propertyName)
                else (case annotationOf parentPropertyValue of
                        None \<Rightarrow> Inl TypeError
                      | Some parentAnnotation \<Rightarrow>
                          (case annotationOf propertyValue of
                             None \<Rightarrow> Inl TypeError
                           | Some currentAnnotation \<Rightarrow>
                               Inr (JArr (arrayElements parentPropertyValue @ arrayElements propertyValue)
                                      (Some (None, spread (snd parentAnnotation) (snd currentAnnotation))),
                                    None)))
            | Merge \<Rightarrow>
                if parentPropertyValue = JNull \<or> propertyValue = JNull
                then Inl (MergeNull propertyName)
                else if propertyValue \<noteq> JUndefined \<and> parentPropertyValue = JUndefined
                then useValueOf currentObject propertyName propertyValue
                else if propertyValue = JUndefined \<and> parentPropertyValue \<noteq> JUndefined
                then useValueOf parentObject propertyName parentPropertyValue
                else if (truthy propertyValue \<and> \<not> typeofObject propertyValue)
                        \<or> (truthy parentPropertyValue \<and> \<not> typeofObject parentPropertyValue)
                then Inl (MergePrimitive propertyName)
                else if isArray propertyValue \<or> isArray parentPropertyValue
                then Inl (MergeNotKeyed propertyName)
                else (case mergeObjects parentPropertyValue propertyValue resolvedConfigurationFilePath
                             Map.empty {} of
                        Inl e \<Rightarrow> Inl e
                      | Inr merged \<Rightarrow> Inr (merged, None))
            | Custom \<Rightarrow>
                (case inheritanceFunction propertyInheritance of
                   None \<Rightarrow> Inl CustomFunctionMissing
                 | Some f \<Rightarrow>
                     (case f propertyValue parentPropertyValue of
                        Inl e \<Rightarrow> Inl e
                      | Inr v \<Rightarrow> Inr (v, None)))
            | Unrecognized \<Rightarrow> Inl UnknownInheritanceType))"
  by pat_completeness auto

termination
  apply (relation "measures
     [\<lambda>x. case x of
        Inl (p, c, _) \<Rightarrow> size p + size c + (if objectKeys p = [] \<and> objectKeys c = [] then 0 else 1)
      | Inr (Inl (p, c, _, _, _, names, _)) \<Rightarrow> size p + size c + (if names = [] then 0 else 1)
      | Inr (Inr (p, c, _)) \<Rightarrow> size p + size c + 1,
      \<lambda>x. case x of Inl _ \<Rightarrow> 2 | Inr (Inl _) \<Rightarrow> 1 | Inr (Inr _) \<Rightarrow> 0,
      \<lambda>x. case x of Inr (Inl (_, _, _, _, _, names, _)) \<Rightarrow> length names | _ \<Rightarrow> 0]")
  subgoal by simp
  subgoal by auto
  subgoal by simp
  subgoal by simp
  subgoal for parentObject currentObject path conf bmap name pv ppv
    using size_getProp[of currentObject name] size_getProp[of parentObject name]
      size_getProp_le[of currentObject name] size_getProp_le[of parentObject name]
    by (cases "getProp currentObject name = JUndefined"; cases "getProp parentObject name = JUndefined")
       (auto simp: objectKeys_def orEmptyObject_def)
  done

declare mergeObjects.simps [simp del] mergeProperties.simps [simp del] mergeProperty.simps [simp del]

definition mergeConfigurationFiles ::
  "(string \<rightharpoonup> propertyInheritance) \<Rightarrow> jvalue \<Rightarrow> jvalue \<Rightarrow> string \<Rightarrow> error + jvalue" where
  "mergeConfigurationFiles propertyInheritanceTypes parentConfiguration configurationJson resolvedConfigurationFilePath =
     mergeObjects parentConfiguration configurationJson resolvedConfigurationFilePath
       propertyInheritanceTypes {''extends'', ''$schema''}"

section \<open>The loader\<close>

text \<open>
  One top-level load runs alone, from its call to the settlement of its promise. Each
  asynchronous function awaits one thing at a time, so the run is sequential, and the only trace
  of asynchrony is the cache of promises: an entry is \<open>Pending\<close> while the load that created
  it is suspended further up the chain of awaits. Awaiting such an entry can never finish; this is
  the outcome \<open>NeverSettles\<close>.

  The collaborators are parameters. \<open>platform\<close> holds the files (a path that is not listed
  does not exist; a listed file is unreadable, or readable with a text that
  \<^verbatim>\<open>JsonFile.parseString\<close> rejects or turns into a value), \<^verbatim>\<open>path.resolve\<close>,
  \<^verbatim>\<open>path.dirname\<close> and \<^verbatim>\<open>Import.resolveModule\<close>.
  \<open>configurationFile\<close> holds the options of the instance; its loop over the JSONPath
  metadata is the function \<open>applyJsonPathMetadata\<close> and its schema the predicate
  \<open>schemaValidates\<close>. \<open>loaderState\<close> is the mutable part: the promise cache, and a log of
  the paths handed to \<^verbatim>\<open>FileSystem.readFileAsync\<close>.
\<close>

datatype 'a outcome = NeverSettles | Rejects error | Fulfills 'a

datatype promise = Pending | Rejected error | Resolved jvalue

datatype fileText = Malformed string | WellFormed jvalue

datatype fileEntry = Unreadable error | Readable fileText

record rigConfig =
  rigFound :: bool
  resolvedProfileFolder :: "error + string"

record platform =
  files :: "(string \<times> fileEntry) list"
  pathResolve :: "string \<Rightarrow> string \<Rightarrow> string"
  pathDirname :: "string \<Rightarrow> string"
  resolveModule :: "jvalue \<Rightarrow> string \<Rightarrow> error + string"

record configurationFile =
  projectRelativeFilePath :: string
  propertyInheritanceTypes :: "string \<rightharpoonup> propertyInheritance"
  applyJsonPathMetadata :: "string \<Rightarrow> jvalue \<Rightarrow> error + jvalue"
  schemaValidates :: "jvalue \<Rightarrow> bool"

record loaderState =
  configPromiseCache :: "string \<rightharpoonup> promise"
  readLog :: "string list"

fun isNotExistError :: "error \<Rightarrow> bool" where
  "isNotExistError (NotExist p) = True"
| "isNotExistError e = False"

definition readFileAsync :: "platform \<Rightarrow> string \<Rightarrow> error + fileText" where
  "readFileAsync os path =
     (case map_of (files os) path of
        None \<Rightarrow> Inl (NotExist path)
      | Some (Unreadable e) \<Rightarrow> Inl e
      | Some (Readable t) \<Rightarrow> Inr t)"

fun parseString :: "fileText \<Rightarrow> string + jvalue" where
  "parseString (Malformed msg) = Inl msg"
| "parseString (WellFormed json) = Inr json"

fun settle :: "jvalue outcome \<Rightarrow> promise" where
  "settle NeverSettles = Pending"
| "settle (Rejects e) = Rejected e"
| "settle (Fulfills v) = Resolved v"

fun await :: "promise \<Rightarrow> jvalue outcome" where
  "await Pending = NeverSettles"
| "await (Rejected e) = Rejects e"
| "await (Resolved v) = Fulfills v"

definition wrapExtendsError :: "string \<Rightarrow> jvalue \<Rightarrow> error \<Rightarrow> error" where
  "wrapExtendsError path extendsValue e =
     (if isNotExistError e then ExtendsUnresolved path extendsValue else e)"

definition mergeAndValidate :: "configurationFile \<Rightarrow> jvalue \<Rightarrow> jvalue \<Rightarrow> string \<Rightarrow> jvalue outcome" where
  "mergeAndValidate this parentConfiguration configurationJson path =
     (case mergeConfigurationFiles (propertyInheritanceTypes this) parentConfiguration configurationJson path of
        Inl e \<Rightarrow> Rejects e
      | Inr result \<Rightarrow>
          if schemaValidates this result then Fulfills result
          else Rejects (SchemaMismatch path))"

definition uncached :: "platform \<Rightarrow> loaderState \<Rightarrow> nat" where
  "uncached os s = card (fst ` set (files os) - dom (configPromiseCache s))"

lemma uncached_readLog [simp]: "uncached os (s\<lparr>readLog := l\<rparr>) = uncached os s"
  by (simp add: uncached_def)

lemma uncached_pending_existing:
  assumes "configPromiseCache s path = None" and "path \<in> fst ` set (files os)"
  shows "Suc (uncached os (s\<lparr>configPromiseCache := (configPromiseCache s)(path \<mapsto> p)\<rparr>)) = uncached os s"
proof -
  let ?F = "fst ` set (files os)" and ?D = "dom (configPromiseCache s)"
  have fin: "finite (?F - ?D)" by simp
  have mem: "path \<in> ?F - ?D" using assms by (auto simp: dom_def)
  have "?F - insert path ?D = (?F - ?D) - {path}" by auto
  then have "card (?F - insert path ?D) = card (?F - ?D) - 1"
    using mem fin by simp
  moreover have "card (?F - ?D) > 0" using mem fin by (auto simp: card_gt_0_iff)
  ultimately show ?thesis by (simp add: uncached_def)
qed

lemma uncached_pending_missing:
  assumes "path \<notin> fst ` set (files os)"
  shows "uncached os (s\<lparr>configPromiseCache := (configPromiseCache s)(path \<mapsto> p)\<rparr>) = uncached os s"
proof -
  have "fst ` set (files os) - insert path (dom (configPromiseCache s))
        = fst ` set (files os) - dom (configPromiseCache s)"
    using assms by auto
  then show ?thesis by (simp add: uncached_def)
qed

lemma readFileAsync_existing: "readFileAsync os path = Inr t \<Longrightarrow> path \<in> fst ` set (files os)"
  by (auto simp: readFileAsync_def split: option.splits fileEntry.splits dest!: map_of_SomeD intro: rev_image_eqI)

text \<open>
  The three mutually recursive functions return the outcome, the visited set (a JavaScript
  \<^verbatim>\<open>Set\<close> shared by reference along the chain) and the state.
  In \<open>loadConfigurationFileInnerWithCache\<close> the source first calls the inner function, which
  runs up to its first \<^verbatim>\<open>await\<close>, then stores the promise, then checks the visited
  set; the file is read only after that. On a cache miss for a path that is already visited the
  source throws while the inner load goes on unobserved; here the entry is left \<open>Pending\<close>.
  That branch is not reachable from the two public entry points, since every visited path has a
  cache entry.
\<close>

function loadConfigurationFileInnerWithCache ::
    "configurationFile \<Rightarrow> platform \<Rightarrow> string \<Rightarrow> string set \<Rightarrow> rigConfig option \<Rightarrow> loaderState
      \<Rightarrow> jvalue outcome \<times> string set \<times> loaderState"
  and loadConfigurationFileInner ::
    "configurationFile \<Rightarrow> platform \<Rightarrow> string \<Rightarrow> string set \<Rightarrow> rigConfig option \<Rightarrow> loaderState
      \<Rightarrow> jvalue outcome \<times> string set \<times> loaderState"
  and tryLoadConfigurationFileInRig ::
    "configurationFile \<Rightarrow> platform \<Rightarrow> rigConfig \<Rightarrow> string set \<Rightarrow> loaderState
      \<Rightarrow> jvalue outcome \<times> string set \<times> loaderState"
where
  "loadConfigurationFileInnerWithCache this os path visited rig s =
     (case configPromiseCache s path of
        Some cacheEntryPromise \<Rightarrow>
          if path \<in> visited then (Rejects (LoopDetected path), visited, s)
          else (await cacheEntryPromise, insert path visited, s)
      | None \<Rightarrow>
          (let s1 = s\<lparr>configPromiseCache := (configPromiseCache s)(path \<mapsto> Pending)\<rparr> in
           if path \<in> visited then (Rejects (LoopDetected path), visited, s1)
           else (case loadConfigurationFileInner this os path (insert path visited) rig s1 of
                   (result, visited', s2) \<Rightarrow>
                     (result, visited',
                      s2\<lparr>configPromiseCache := (configPromiseCache s2)(path \<mapsto> settle result)\<rparr>))))"
| "loadConfigurationFileInner this os path visited rig s =
     (let s1 = s\<lparr>readLog := readLog s @ [path]\<rparr> in
      case readFileAsync os path of
        Inl e \<Rightarrow>
          if isNotExistError e then
            (case rig of
               Some rigConfig \<Rightarrow>
                 (case tryLoadConfigurationFileInRig this os rigConfig visited s1 of
                    (Fulfills rigResult, visited', s2) \<Rightarrow>
                      if truthy rigResult then (Fulfills rigResult, visited', s2)
                      else (Rejects (NotExist path), visited', s2)
                  | (Rejects e', visited', s2) \<Rightarrow> (Rejects e', visited', s2)
                  | (NeverSettles, visited', s2) \<Rightarrow> (NeverSettles, visited', s2))
             | None \<Rightarrow> (Rejects (NotExist path), visited, s1))
          else (Rejects e, visited, s1)
      | Inr fileText \<Rightarrow>
          (case parseString fileText of
             Inl msg \<Rightarrow> (Rejects (ParseFailed path msg), visited, s1)
           | Inr json \<Rightarrow>
               (case applyJsonPathMetadata this path (annotateProperties path json) of
                  Inl e \<Rightarrow> (Rejects e, visited, s1)
                | Inr configurationJson \<Rightarrow>
                    if configurationJson = JNull \<or> configurationJson = JUndefined
                    then (Rejects TypeError, visited, s1)
                    else if truthy (getProp configurationJson ''extends'')
                    then (case resolveModule os (getProp configurationJson ''extends'') (pathDirname os path) of
                            Inl e \<Rightarrow>
                              (Rejects (wrapExtendsError path (getProp configurationJson ''extends'') e),
                               visited, s1)
                          | Inr resolvedParentConfigPath \<Rightarrow>
                              (case loadConfigurationFileInnerWithCache this os resolvedParentConfigPath
                                      visited None s1 of
                                 (Fulfills parentConfiguration, visited', s2) \<Rightarrow>
                                   (mergeAndValidate this parentConfiguration configurationJson path,
                                    visited', s2)
                               | (Rejects e, visited', s2) \<Rightarrow>
                                   (Rejects (wrapExtendsError path (getProp configurationJson ''extends'') e),
                                    visited', s2)
                               | (NeverSettles, visited', s2) \<Rightarrow> (NeverSettles, visited', s2)))
                    else (mergeAndValidate this JUndefined configurationJson path, visited, s1))))"
| "tryLoadConfigurationFileInRig this os rigConfig visited s =
     (if rigFound rigConfig then
        (case resolvedProfileFolder rigConfig of
           Inl e \<Rightarrow> (Rejects e, visited, s)
         | Inr rigProfileFolder \<Rightarrow>
             (case loadConfigurationFileInnerWithCache this os
                     (pathResolve os rigProfileFolder (projectRelativeFilePath this)) visited None s of
                (Rejects e, visited', s') \<Rightarrow>
                  if \<not> isNotExistError e then (Rejects e, visited', s')
                  else (Fulfills JUndefined, visited', s')
              | (Fulfills v, visited', s') \<Rightarrow> (Fulfills v, visited', s')
              | (NeverSettles, visited', s') \<Rightarrow> (NeverSettles, visited', s')))
      else (Fulfills JUndefined, visited, s))"
  by pat_completeness auto

termination
  apply (relation "measure (\<lambda>x. case x of
        Inl (this, os, path, visited, rig, s) \<Rightarrow>
          2 * uncached os s + 1 + (case rig of None \<Rightarrow> 0 | Some _ \<Rightarrow> 3)
      | Inr (Inl (this, os, path, visited, rig, s)) \<Rightarrow>
          2 * uncached os s + (if path \<in> fst ` set (files os) then 2 else 0)
            + (case rig of None \<Rightarrow> 0 | Some _ \<Rightarrow> 3)
      | Inr (Inr (this, os, rigConfig, visited, s)) \<Rightarrow> 2 * uncached os s + 2)")
  subgoal by simp
  subgoal for this os path visited rig s s1
    using uncached_pending_existing[of s path os Pending] uncached_pending_missing[of path os s Pending]
    by (cases "path \<in> fst ` set (files os)") (auto split: option.splits)
  subgoal by (simp split: option.splits)
  subgoal by (auto dest: readFileAsync_existing)
  subgoal by simp
  done


declare loadConfigurationFileInnerWithCache.simps [simp del]
  loadConfigurationFileInner.simps [simp del] tryLoadConfigurationFileInRig.simps [simp del]

section \<open>Public entry points\<close>

definition getConfigurationFilePathForProject :: "configurationFile \<Rightarrow> platform \<Rightarrow> string \<Rightarrow> string" where
  "getConfigurationFilePathForProject this os projectPath =
     pathResolve os projectPath (projectRelativeFilePath this)"

definition loadConfigurationFileForProject ::
  "configurationFile \<Rightarrow> platform \<Rightarrow> string \<Rightarrow> rigConfig option \<Rightarrow> loaderState
    \<Rightarrow> jvalue outcome \<times> loaderState" where
  "loadConfigurationFileForProject this os projectPath rig s =
     (case loadConfigurationFileInnerWithCache this os
             (getConfigurationFilePathForProject this os projectPath) {} rig s of
        (result, visited, s') \<Rightarrow> (result, s'))"

definition tryLoadConfigurationFileForProject ::
  "configurationFile \<Rightarrow> platform \<Rightarrow> string \<Rightarrow> rigConfig option \<Rightarrow> loaderState
    \<Rightarrow> jvalue outcome \<times> loaderState" where
  "tryLoadConfigurationFileForProject this os projectPath rig s =
     (case loadConfigurationFileForProject this os projectPath rig s of
        (Rejects e, s') \<Rightarrow>
          if isNotExistError e then (Fulfills JUndefined, s') else (Rejects e, s')
      | (result, s') \<Rightarrow> (result, s'))"

definition newLoaderState :: loaderState where
  "newLoaderState = \<lparr>configPromiseCache = Map.empty, readLog = []\<rparr>"

text \<open>
  The names the second loop of \<^verbatim>\<open>_mergeObjects\<close> runs over: the keys of the parent,
  then the keys of the child that are neither ignored nor merge behavior keys.
\<close>

definition mergePropertyNames :: "jvalue \<Rightarrow> jvalue \<Rightarrow> string set \<Rightarrow> string list" where
  "mergePropertyNames parentObject currentObject ignoreProperties =
     dedupe (objectKeys parentObject
             @ filter (\<lambda>n. n \<notin> ignoreProperties \<and> mergeBehaviorTarget n = None) (objectKeys currentObject))"

section \<open>Worked examples\<close>

text \<open>Files and collaborators used to run the definitions on concrete inputs.\<close>

definition rootIgnored :: "string set" where
  "rootIgnored = {''extends'', ''$schema''}"






definition leafNullA :: jvalue where
  "leafNullA = annotateProperties ''/leaf.json'' (JObj [(''a'', JNull)] None)"

definition mergedNullA :: jvalue where
  "mergedNullA = JObj [(''a'', JNull)] (Some (Some ''/leaf.json'', [(''a'', JNull)]))"

definition baseTags :: jvalue where
  "baseTags = annotateProperties ''/base.json'' (JObj [(''tags'', JArr [JNum 1, JNum 2] None)] None)"

definition leafTags :: jvalue where
  "leafTags = annotateProperties ''/leaf.json'' (JObj [(''tags'', JArr [JNum 3, JNum 4] None)] None)"

definition mergedTagsArray :: jvalue where
  "mergedTagsArray = JArr [JNum 1, JNum 2, JNum 3, JNum 4] (Some (None, [(''0'', JNum 3), (''1'', JNum 4)]))"

definition mergedTags :: jvalue where
  "mergedTags = JObj [(''tags'', mergedTagsArray)] (Some (Some ''/leaf.json'', []))"

definition mergeSettings :: "string \<rightharpoonup> propertyInheritance" where
  "mergeSettings = [''settings'' \<mapsto> PropertyInheritance Merge None]"

definition baseSettings :: jvalue where
  "baseSettings = annotateProperties ''/base.json'' (JObj [(''settings'', JObj [(''a'', JNum 1)] None)] None)"

definition leafSettingsZero :: jvalue where
  "leafSettingsZero = annotateProperties ''/leaf.json'' (JObj [(''settings'', JNum 0)] None)"

definition leafSettingsSeven :: jvalue where
  "leafSettingsSeven = annotateProperties ''/leaf.json'' (JObj [(''settings'', JNum 7)] None)"

definition leafSettingsNull :: jvalue where
  "leafSettingsNull = annotateProperties ''/leaf.json'' (JObj [(''settings'', JNull)] None)"

definition leafSettingsArray :: jvalue where
  "leafSettingsArray = annotateProperties ''/leaf.json'' (JObj [(''settings'', JArr [] None)] None)"

definition baseSettingsAB :: jvalue where
  "baseSettingsAB = annotateProperties ''/base.json''
     (JObj [(''settings'', JObj [(''a'', JNum 1), (''b'', JNum 2)] None)] None)"

definition leafSettingsBC :: jvalue where
  "leafSettingsBC = annotateProperties ''/leaf.json''
     (JObj [(''settings'', JObj [(''b'', JNum 3), (''c'', JNum 4)] None)] None)"

text \<open>The four errors of the first pass of \<^verbatim>\<open>_mergeObjects\<close>.\<close>

fun isMergeDirectiveError :: "error \<Rightarrow> bool" where
  "isMergeDirectiveError (DirectiveNoTarget k) = True"
| "isMergeDirectiveError (DirectiveNotString k v) = True"
| "isMergeDirectiveError (DirectiveTargetNotObject k) = True"
| "isMergeDirectiveError (DirectiveUnsupported k s) = True"
| "isMergeDirectiveError e = False"


definition leafTagADirected :: jvalue where
  "leafTagADirected = annotateProperties ''/leaf.json''
     (JObj [(''tags'', JArr [JStr ''a''] None), (''$tags.mergeBehavior'', JStr ''Append'')] None)"





definition joinPath :: "string \<Rightarrow> string \<Rightarrow> string" where
  "joinPath folder name = folder @ ''/'' @ name"

definition folderOf :: "string \<Rightarrow> string" where
  "folderOf path = rev (drop 1 (dropWhile (\<lambda>c. c \<noteq> CHR ''/'') (rev path)))"

definition siblingResolveModule :: "jvalue \<Rightarrow> string \<Rightarrow> error + string" where
  "siblingResolveModule modulePath baseFolderPath =
     (case modulePath of
        JStr m \<Rightarrow> Inr (if take 1 m = ''/'' then m else joinPath baseFolderPath m)
      | _ \<Rightarrow> Inl TypeError)"

definition plainConfig :: configurationFile where
  "plainConfig = \<lparr>projectRelativeFilePath = ''a.json'', propertyInheritanceTypes = Map.empty,
     applyJsonPathMetadata = (\<lambda>path json. Inr json), schemaValidates = (\<lambda>v. True)\<rparr>"

definition diskOf :: "(string \<times> fileEntry) list \<Rightarrow> platform" where
  "diskOf entries = \<lparr>files = entries, pathResolve = joinPath, pathDirname = folderOf,
     resolveModule = siblingResolveModule\<rparr>"

definition namedJson :: jvalue where
  "namedJson = JObj [(''name'', JStr ''x'')] None"

definition namedDisk :: platform where
  "namedDisk = diskOf [(''/p/a.json'', Readable (WellFormed namedJson))]"

definition schemaJson :: jvalue where
  "schemaJson = JObj [(''$schema'', JStr ''s.json''), (''name'', JStr ''x'')] None"

definition schemaDisk :: platform where
  "schemaDisk = diskOf [(''/p/a.json'', Readable (WellFormed schemaJson))]"

definition emptyDisk :: platform where
  "emptyDisk = diskOf []"

definition rigAt :: rigConfig where
  "rigAt = \<lparr>rigFound = True, resolvedProfileFolder = Inr ''/rig''\<rparr>"

definition rigLoopDisk :: platform where
  "rigLoopDisk = diskOf [(''/rig/a.json'', Readable (WellFormed (JObj [(''extends'', JStr ''/p/a.json'')] None)))]"

definition primaryPending :: loaderState where
  "primaryPending = \<lparr>configPromiseCache = [''/p/a.json'' \<mapsto> Pending], readLog = [''/p/a.json'']\<rparr>"

definition failedOnce :: loaderState where
  "failedOnce = \<lparr>configPromiseCache = [''/p/a.json'' \<mapsto> Rejected (NotExist ''/p/a.json'')],
                  readLog = [''/p/a.json'']\<rparr>"

definition rigNamedDisk :: platform where
  "rigNamedDisk = diskOf [(''/rig/a.json'', Readable (WellFormed namedJson))]"

text \<open>
  Notions used to state the properties of the loader. A state is quiescent when no cache entry
  is pending, as after every top-level load that has settled. \<open>chainInvariant\<close> is what holds
  along one chain of nested loads: every visited path has a cache entry, and every pending entry
  is a visited path. \<open>extendsTarget\<close> is the path the \<open>extends\<close> property of a file resolves
  to, when the file can be read, parsed and rewritten and has such a property;
  \<open>extendsChain\<close> says that each path of a list is the target of the one before.
\<close>

definition quiescent :: "loaderState \<Rightarrow> bool" where
  "quiescent s = (\<forall>p. configPromiseCache s p \<noteq> Some Pending)"

definition chainInvariant :: "string set \<Rightarrow> loaderState \<Rightarrow> bool" where
  "chainInvariant visited s =
     (visited \<subseteq> dom (configPromiseCache s)
      \<and> (\<forall>p. configPromiseCache s p = Some Pending \<longrightarrow> p \<in> visited))"

definition settlesQuietly :: "loaderState \<Rightarrow> jvalue outcome \<times> string set \<times> loaderState \<Rightarrow> bool" where
  "settlesQuietly s r =
     (fst r \<noteq> NeverSettles
      \<and> (\<forall>p. configPromiseCache (snd (snd r)) p = Some Pending \<longleftrightarrow> configPromiseCache s p = Some Pending))"

definition extendsTarget :: "configurationFile \<Rightarrow> platform \<Rightarrow> string \<Rightarrow> string option" where
  "extendsTarget this os path =
     (case readFileAsync os path of
        Inl e \<Rightarrow> None
      | Inr fileText \<Rightarrow>
          (case parseString fileText of
             Inl msg \<Rightarrow> None
           | Inr json \<Rightarrow>
               (case applyJsonPathMetadata this path (annotateProperties path json) of
                  Inl e \<Rightarrow> None
                | Inr configurationJson \<Rightarrow>
                    if configurationJson \<noteq> JNull \<and> configurationJson \<noteq> JUndefined
                       \<and> truthy (getProp configurationJson ''extends'')
                    then (case resolveModule os (getProp configurationJson ''extends'') (pathDirname os path) of
                            Inl e \<Rightarrow> None
                          | Inr resolvedParentConfigPath \<Rightarrow> Some resolvedParentConfigPath)
                    else None)))"

fun extendsChain :: "configurationFile \<Rightarrow> platform \<Rightarrow> string list \<Rightarrow> bool" where
  "extendsChain this os (x # y # rest) = (extendsTarget this os x = Some y \<and> extendsChain this os (y # rest))"
| "extendsChain this os xs = True"

definition cyclicDisk :: platform where
  "cyclicDisk = diskOf [(''/p/a.json'', Readable (WellFormed (JObj [(''extends'', JStr ''b.json'')] None))),
                        (''/p/b.json'', Readable (WellFormed (JObj [(''extends'', JStr ''a.json'')] None)))]"

text \<open>
  What the loader takes for granted of its collaborators in the property of
  \<open>tryLoadConfigurationFileForProject\<close>: neither the rewriting of path properties, nor a
  custom inheritance function, nor the resolution of the rig's profile folder raises an error
  for which \<^verbatim>\<open>FileSystem.isNotExistError\<close> holds.
\<close>

definition combinersNeverReportMissing :: "(string \<rightharpoonup> propertyInheritance) \<Rightarrow> bool" where
  "combinersNeverReportMissing table =
     (\<forall>name entry f childValue parentValue e.
        table name = Some entry \<and> inheritanceFunction entry = Some f \<and> f childValue parentValue = Inl e
        \<longrightarrow> \<not> isNotExistError e)"

definition collaboratorsNeverReportMissing :: "configurationFile \<Rightarrow> rigConfig option \<Rightarrow> bool" where
  "collaboratorsNeverReportMissing this rig =
     ((\<forall>path json e. applyJsonPathMetadata this path json = Inl e \<longrightarrow> \<not> isNotExistError e)
      \<and> combinersNeverReportMissing (propertyInheritanceTypes this)
      \<and> (\<forall>rigConfig e. rig = Some rigConfig \<and> resolvedProfileFolder rigConfig = Inl e
            \<longrightarrow> \<not> isNotExistError e))"

definition danglingJson :: jvalue where
  "danglingJson = JObj [(''extends'', JStr ''gone.json'')] None"

definition danglingDisk :: platform where
  "danglingDisk = diskOf [(''/p/a.json'', Readable (WellFormed danglingJson))]"

text \<open>
  Further inputs: a parent with two properties for a child that sets one of them to null; a
  child with a rejected merge behavior key after an accepted one, and one with two rejected
  keys; files whose nested object
  \<open>s\<close> has a merge behavior key of its own; a file that is an array; two files that extend
  each other from different folders, with the states in which another top-level load is under
  way; a rig whose profile folder is the project folder; and a rewriting of path properties that
  reports a missing file.
\<close>

definition baseAThenB :: jvalue where
  "baseAThenB = annotateProperties ''/base.json'' (JObj [(''a'', JNum 1), (''b'', JNum 2)] None)"

definition mergedNullAThenB :: jvalue where
  "mergedNullAThenB = JObj [(''a'', JNull), (''b'', JNum 2)]
                        (Some (Some ''/leaf.json'', [(''a'', JNull), (''b'', JNum 2)]))"






definition arrayJson :: jvalue where
  "arrayJson = JArr [JNum 7, JNum 8] None"

definition arrayDisk :: platform where
  "arrayDisk = diskOf [(''/p/a.json'', Readable (WellFormed arrayJson))]"

definition crossDisk :: platform where
  "crossDisk = diskOf [(''/p/a.json'', Readable (WellFormed (JObj [(''extends'', JStr ''/q/a.json'')] None))),
                       (''/q/a.json'', Readable (WellFormed (JObj [(''extends'', JStr ''/p/a.json'')] None)))]"

definition otherLoadStarted :: loaderState where
  "otherLoadStarted = \<lparr>configPromiseCache = [''/q/a.json'' \<mapsto> Pending], readLog = []\<rparr>"

definition bothLoadsStarted :: loaderState where
  "bothLoadsStarted = \<lparr>configPromiseCache = [''/p/a.json'' \<mapsto> Pending, ''/q/a.json'' \<mapsto> Pending],
                        readLog = []\<rparr>"

definition rigInProject :: rigConfig where
  "rigInProject = \<lparr>rigFound = True, resolvedProfileFolder = Inr ''/p''\<rparr>"

definition resolverReportsMissing :: configurationFile where
  "resolverReportsMissing = plainConfig\<lparr>applyJsonPathMetadata := (\<lambda>path json. Inl (NotExist ''/p/lib''))\<rparr>"

section \<open>Properties of the merger\<close>

lemma mergeProperties_Nil:
  "mergeProperties p c path conf bmap [] props origs = Inr (props, origs)"
  by (subst mergeProperties.simps) simp

lemma mergeProperties_Cons:
  "mergeProperties p c path conf bmap (n # rest) props origs =
     (case mergeProperty p c path conf bmap n of
        Inl e \<Rightarrow> Inl e
      | Inr (newValue, original) \<Rightarrow>
          mergeProperties p c path conf bmap rest (AList.update n newValue props)
            (case original of Some v \<Rightarrow> AList.update n v origs | None \<Rightarrow> origs))"
  by (subst mergeProperties.simps) simp

lemma mergeProperties_untouched:
  "mergeProperties p c path conf bmap names props origs = Inr (props', origs')
    \<Longrightarrow> n \<notin> set names
    \<Longrightarrow> map_of props' n = map_of props n \<and> map_of origs' n = map_of origs n"
proof (induction names arbitrary: props origs)
  case Nil
  then show ?case by (simp add: mergeProperties_Nil)
next
  case (Cons m rest)
  from Cons.prems(1) obtain v orig where
    step: "mergeProperty p c path conf bmap m = Inr (v, orig)"
    and rest: "mergeProperties p c path conf bmap rest (AList.update m v props)
                 (case orig of Some x \<Rightarrow> AList.update m x origs | None \<Rightarrow> origs) = Inr (props', origs')"
    by (auto simp: mergeProperties_Cons split: sum.splits)
  from Cons.prems(2) have nm: "n \<noteq> m" and nr: "n \<notin> set rest" by auto
  from Cons.IH[OF rest nr] nm show ?case
    by (cases orig) (simp_all add: update_conv')
qed

lemma mergeProperties_lookup:
  "mergeProperties p c path conf bmap names props origs = Inr (props', origs')
    \<Longrightarrow> distinct names \<Longrightarrow> n \<in> set names
    \<Longrightarrow> \<exists>v orig. mergeProperty p c path conf bmap n = Inr (v, orig)
          \<and> map_of props' n = Some v
          \<and> map_of origs' n = (case orig of Some x \<Rightarrow> Some x | None \<Rightarrow> map_of origs n)"
proof (induction names arbitrary: props origs)
  case Nil
  then show ?case by simp
next
  case (Cons m rest)
  from Cons.prems(1) obtain v orig where
    step: "mergeProperty p c path conf bmap m = Inr (v, orig)"
    and rest: "mergeProperties p c path conf bmap rest (AList.update m v props)
                 (case orig of Some x \<Rightarrow> AList.update m x origs | None \<Rightarrow> origs) = Inr (props', origs')"
    by (auto simp: mergeProperties_Cons split: sum.splits)
  show ?case
  proof (cases "n = m")
    case True
    with Cons.prems(2) have "n \<notin> set rest" by simp
    from mergeProperties_untouched[OF rest this] step True show ?thesis
      by (cases orig) (simp_all add: update_conv')
  next
    case False
    with Cons.prems have d: "distinct rest" and mem: "n \<in> set rest" by auto
    from Cons.IH[OF rest d mem] obtain v' o' where
      A: "mergeProperty p c path conf bmap n = Inr (v', o')"
      and B: "map_of props' n = Some v'"
      and C: "map_of origs' n = (case o' of Some x \<Rightarrow> Some x
                | None \<Rightarrow> map_of (case orig of Some x \<Rightarrow> AList.update m x origs | None \<Rightarrow> origs) n)"
      by blast
    have "map_of (case orig of Some x \<Rightarrow> AList.update m x origs | None \<Rightarrow> origs) n = map_of origs n"
      using False by (cases orig) (simp_all add: update_conv')
    with A B C show ?thesis by (cases o') simp_all
  qed
qed


lemma dedupe_set [simp]: "set (dedupe xs) = set xs"
  by (induction xs rule: dedupe.induct) auto

lemma dedupe_distinct [simp]: "distinct (dedupe xs)"
  by (induction xs rule: dedupe.induct) auto

lemma dedupe_id: "distinct xs \<Longrightarrow> dedupe xs = xs"
proof (induction xs)
  case Nil
  then show ?case by simp
next
  case (Cons a xs)
  then have "filter (\<lambda>y. y \<noteq> a) xs = xs"
    by (auto simp: filter_id_conv)
  with Cons show ?case by simp
qed

lemma gather_filtered:
  "gatherMergeBehaviors c ig names f m = Inr (f', m')
    \<Longrightarrow> f' = f @ filter (\<lambda>n. n \<notin> ig \<and> mergeBehaviorTarget n = None) names"
proof (induction names arbitrary: f m)
  case Nil
  then show ?case by simp
next
  case (Cons a names)
  show ?case
  proof (cases "a \<in> ig")
    case True
    with Cons.prems Cons.IH[of f m] show ?thesis by simp
  next
    case False
    show ?thesis
    proof (cases "mergeBehaviorTarget a")
      case None
      with False Cons.prems Cons.IH[of "f @ [a]" m] show ?thesis by simp
    next
      case (Some t)
      with False Cons.prems obtain b where
        "gatherMergeBehaviors c ig names f (m(t \<mapsto> b)) = Inr (f', m')"
        by (auto split: sum.splits)
      from Cons.IH[OF this] show ?thesis using False Some by simp
    qed
  qed
qed


lemma mergeObjects_Inr:
  assumes "mergeObjects p c path conf ig = Inr result"
  obtains filtered bmap props origs where
    "gatherMergeBehaviors c ig (objectKeys c) [] Map.empty = Inr (filtered, bmap)"
    "mergeProperties p c path conf bmap (mergePropertyNames p c ig) [] [] = Inr (props, origs)"
    "result = JObj props (Some (Some path, origs))"
proof -
  from assms obtain filtered bmap where
    g: "gatherMergeBehaviors c ig (objectKeys c) [] Map.empty = Inr (filtered, bmap)"
    by (subst (asm) mergeObjects.simps) (auto split: sum.splits)
  from gather_filtered[OF g] have f: "dedupe (objectKeys p @ filtered) = mergePropertyNames p c ig"
    by (simp add: mergePropertyNames_def)
  from assms g f obtain props origs where
    "mergeProperties p c path conf bmap (mergePropertyNames p c ig) [] [] = Inr (props, origs)"
    "result = JObj props (Some (Some path, origs))"
    by (subst (asm) mergeObjects.simps) (auto split: sum.splits)
  with g that show thesis by blast
qed

lemma getProp_JObj: "getProp (JObj props a) n = (case map_of props n of Some x \<Rightarrow> x | None \<Rightarrow> JUndefined)"
  by (simp add: getProp_def orEmptyObject_def)

lemma getPropertyOriginalValue_JObj:
  "getPropertyOriginalValue (JObj props (Some (f, origs))) n
     = Inr (case map_of origs n of Some x \<Rightarrow> x | None \<Rightarrow> JUndefined)"
  by (simp add: getPropertyOriginalValue_def split: option.splits)

lemma mergeObjects_property:
  assumes ok: "mergeObjects p c path conf ig = Inr result"
    and g: "gatherMergeBehaviors c ig (objectKeys c) [] Map.empty = Inr (filtered, bmap)"
    and mem: "n \<in> set (mergePropertyNames p c ig)"
  shows "\<exists>v orig. mergeProperty p c path conf bmap n = Inr (v, orig)
           \<and> getProp result n = v
           \<and> (\<forall>x. orig = Some x \<longrightarrow> getPropertyOriginalValue result n = Inr x)
           \<and> (orig = None \<longrightarrow> getPropertyOriginalValue result n = Inr JUndefined)"
proof -
  from ok obtain filtered' bmap' props origs where
    g': "gatherMergeBehaviors c ig (objectKeys c) [] Map.empty = Inr (filtered', bmap')"
    and mp: "mergeProperties p c path conf bmap' (mergePropertyNames p c ig) [] [] = Inr (props, origs)"
    and r: "result = JObj props (Some (Some path, origs))"
    by (rule mergeObjects_Inr)
  from g g' have [simp]: "bmap' = bmap" by simp
  have d: "distinct (mergePropertyNames p c ig)" by (simp add: mergePropertyNames_def)
  from mergeProperties_lookup[OF mp d mem] obtain v orig where
    A: "mergeProperty p c path conf bmap n = Inr (v, orig)"
    and B: "map_of props n = Some v"
    and C: "map_of origs n = (case orig of Some x \<Rightarrow> Some x | None \<Rightarrow> map_of [] n)"
    by auto
  from B r have "getProp result n = v" by (simp add: getProp_JObj)
  moreover from C r have "\<forall>x. orig = Some x \<longrightarrow> getPropertyOriginalValue result n = Inr x"
    by (auto simp: getPropertyOriginalValue_JObj)
  moreover from C r have "orig = None \<longrightarrow> getPropertyOriginalValue result n = Inr JUndefined"
    by (auto simp: getPropertyOriginalValue_JObj)
  ultimately show ?thesis using A by blast
qed

lemma getProp_defined_object: "getProp v n \<noteq> JUndefined \<Longrightarrow> v \<noteq> JUndefined \<and> v \<noteq> JNull"
  by (auto simp: getProp_def orEmptyObject_def)

lemma useValueOf_defined:
  "getProp side n \<noteq> JUndefined \<Longrightarrow>
   \<exists>orig. getPropertyOriginalValue side n = Inr orig \<and> useValueOf side n v = Inr (v, Some orig)"
  by (drule getProp_defined_object)
     (auto simp: useValueOf_def getPropertyOriginalValue_def split: option.splits)

lemma mergeProperty_child_only:
  "getProp c n \<noteq> JUndefined \<Longrightarrow> getProp p n = JUndefined
    \<Longrightarrow> mergeProperty p c path conf bmap n = useValueOf c n (getProp c n)"
  by (subst mergeProperty.simps) (simp add: Let_def)

lemma mergeProperty_parent_only:
  "getProp c n = JUndefined \<Longrightarrow> getProp p n \<noteq> JUndefined
    \<Longrightarrow> mergeProperty p c path conf bmap n = useValueOf p n (getProp p n)"
  by (subst mergeProperty.simps) (simp add: Let_def)

lemma mergeProperty_replace:
  "inheritanceType (effectiveInheritance bmap conf (getProp c n) (getProp p n) n) = Replace
    \<Longrightarrow> mergeProperty p c path conf bmap n =
        (if getProp c n \<noteq> JUndefined then useValueOf c n (getProp c n)
         else useValueOf p n (getProp p n))"
proof -
  assume r: "inheritanceType (effectiveInheritance bmap conf (getProp c n) (getProp p n) n) = Replace"
  consider (child) "getProp c n \<noteq> JUndefined" "getProp p n = JUndefined"
    | (parent) "getProp c n = JUndefined" "getProp p n \<noteq> JUndefined"
    | (both) "getProp c n \<noteq> JUndefined" "getProp p n \<noteq> JUndefined"
    | (neither) "getProp c n = JUndefined" "getProp p n = JUndefined"
    by blast
  then show ?thesis
  proof cases
    case child
    then show ?thesis by (simp add: mergeProperty_child_only)
  next
    case parent
    then show ?thesis by (simp add: mergeProperty_parent_only)
  next
    case both
    with r show ?thesis by (subst mergeProperty.simps) (simp add: Let_def)
  next
    case neither
    with r show ?thesis by (subst mergeProperty.simps) (simp add: Let_def)
  qed
qed



lemma useValueOf_value: "useValueOf side n x = Inr (v, orig) \<Longrightarrow> v = x"
  by (auto simp: useValueOf_def split: sum.splits)

text \<open>
  Claim C10. Only \<open>JUndefined\<close> marks absence. In the step of the merge loop for a property
  name: a child value \<open>JNull\<close> is taken, with the child's recorded original value, whenever
  the parent has no value (the short-circuit) or the effective policy is replace; when the child
  omits the property and the parent has a value, the parent's value is taken with the parent's
  recorded original value; under the replace policy the step takes the child's value whenever
  the child has one, null included, and the parent's value only when the child omits the
  property; and the policy is replace for a null child value when neither a merge behavior key
  nor the configured table names the property. For a name of the merge property-name set of a
  successful merge the result has these values and original values: null in the first case, the
  parent's value in the second, and under replace the child's value if it has one and the
  parent's otherwise.
\<close>

theorem C10_null_child_counts_as_defined:
  "(getProp currentObject name = JNull
      \<and> (getProp parentObject name = JUndefined
           \<or> inheritanceType (effectiveInheritance mergeBehaviorMap configured JNull
                                (getProp parentObject name) name) = Replace)
    \<longrightarrow> (\<exists>original. getPropertyOriginalValue currentObject name = Inr original
           \<and> mergeProperty parentObject currentObject path configured mergeBehaviorMap name
               = Inr (JNull, Some original)))
   \<and> (getProp currentObject name = JUndefined \<and> getProp parentObject name \<noteq> JUndefined
    \<longrightarrow> (\<exists>original. getPropertyOriginalValue parentObject name = Inr original
           \<and> mergeProperty parentObject currentObject path configured mergeBehaviorMap name
               = Inr (getProp parentObject name, Some original)))
   \<and> (inheritanceType (effectiveInheritance mergeBehaviorMap configured (getProp currentObject name)
                          (getProp parentObject name) name) = Replace
    \<longrightarrow> mergeProperty parentObject currentObject path configured mergeBehaviorMap name =
          (if getProp currentObject name \<noteq> JUndefined
           then useValueOf currentObject name (getProp currentObject name)
           else useValueOf parentObject name (getProp parentObject name)))
   \<and> (getProp currentObject name = JNull \<and> mergeBehaviorMap name = None \<and> configured name = None
    \<longrightarrow> inheritanceType (effectiveInheritance mergeBehaviorMap configured JNull
                           (getProp parentObject name) name) = Replace)
   \<and> (mergeObjects parentObject currentObject path configured ignoreProperties = Inr result
      \<and> gatherMergeBehaviors currentObject ignoreProperties (objectKeys currentObject) [] Map.empty
          = Inr (filtered, mergeBehaviorMap)
      \<and> name \<in> set (mergePropertyNames parentObject currentObject ignoreProperties)
    \<longrightarrow> (getProp currentObject name = JNull
            \<and> (getProp parentObject name = JUndefined
                 \<or> inheritanceType (effectiveInheritance mergeBehaviorMap configured JNull
                                      (getProp parentObject name) name) = Replace)
          \<longrightarrow> getProp result name = JNull
              \<and> getPropertyOriginalValue result name = getPropertyOriginalValue currentObject name)
       \<and> (getProp currentObject name = JUndefined \<and> getProp parentObject name \<noteq> JUndefined
          \<longrightarrow> getProp result name = getProp parentObject name
              \<and> getPropertyOriginalValue result name = getPropertyOriginalValue parentObject name)
       \<and> (inheritanceType (effectiveInheritance mergeBehaviorMap configured (getProp currentObject name)
                              (getProp parentObject name) name) = Replace
          \<longrightarrow> getProp result name =
                (if getProp currentObject name \<noteq> JUndefined then getProp currentObject name
                 else getProp parentObject name)))"
proof -
  let ?step = "mergeProperty parentObject currentObject path configured mergeBehaviorMap name"
  have replaceStep: "?step =
          (if getProp currentObject name \<noteq> JUndefined
           then useValueOf currentObject name (getProp currentObject name)
           else useValueOf parentObject name (getProp parentObject name))"
    if "inheritanceType (effectiveInheritance mergeBehaviorMap configured (getProp currentObject name)
                          (getProp parentObject name) name) = Replace"
    using mergeProperty_replace[OF that, of path] .
  have nullStep: "\<exists>original. getPropertyOriginalValue currentObject name = Inr original
           \<and> ?step = Inr (JNull, Some original)"
    if n: "getProp currentObject name = JNull"
      and w: "getProp parentObject name = JUndefined
           \<or> inheritanceType (effectiveInheritance mergeBehaviorMap configured JNull
                                (getProp parentObject name) name) = Replace"
  proof -
    have d: "getProp currentObject name \<noteq> JUndefined" using n by simp
    from useValueOf_defined[OF d] n obtain orig where
      o: "getPropertyOriginalValue currentObject name = Inr orig"
         "useValueOf currentObject name JNull = Inr (JNull, Some orig)"
      by auto
    from w have "?step = useValueOf currentObject name JNull"
    proof
      assume "getProp parentObject name = JUndefined"
      with d n show ?thesis
        using mergeProperty_child_only[of currentObject name parentObject path configured mergeBehaviorMap]
        by simp
    next
      assume "inheritanceType (effectiveInheritance mergeBehaviorMap configured JNull
                                (getProp parentObject name) name) = Replace"
      with n replaceStep show ?thesis by simp
    qed
    with o show ?thesis by simp
  qed
  have omitStep: "\<exists>original. getPropertyOriginalValue parentObject name = Inr original
           \<and> ?step = Inr (getProp parentObject name, Some original)"
    if u: "getProp currentObject name = JUndefined" and d: "getProp parentObject name \<noteq> JUndefined"
  proof -
    from useValueOf_defined[OF d] obtain orig where
      o: "getPropertyOriginalValue parentObject name = Inr orig"
         "useValueOf parentObject name (getProp parentObject name) = Inr (getProp parentObject name, Some orig)"
      by blast
    from u d have "?step = useValueOf parentObject name (getProp parentObject name)"
      using mergeProperty_parent_only[of currentObject name parentObject path configured mergeBehaviorMap]
      by simp
    with o show ?thesis by simp
  qed
  have default: "inheritanceType (effectiveInheritance mergeBehaviorMap configured JNull
                                 (getProp parentObject name) name) = Replace"
    if "mergeBehaviorMap name = None" "configured name = None"
    using that by (simp add: effectiveInheritance_def)
  have results: "(getProp currentObject name = JNull
            \<and> (getProp parentObject name = JUndefined
                 \<or> inheritanceType (effectiveInheritance mergeBehaviorMap configured JNull
                                      (getProp parentObject name) name) = Replace)
          \<longrightarrow> getProp result name = JNull
              \<and> getPropertyOriginalValue result name = getPropertyOriginalValue currentObject name)
       \<and> (getProp currentObject name = JUndefined \<and> getProp parentObject name \<noteq> JUndefined
          \<longrightarrow> getProp result name = getProp parentObject name
              \<and> getPropertyOriginalValue result name = getPropertyOriginalValue parentObject name)
       \<and> (inheritanceType (effectiveInheritance mergeBehaviorMap configured (getProp currentObject name)
                              (getProp parentObject name) name) = Replace
          \<longrightarrow> getProp result name =
                (if getProp currentObject name \<noteq> JUndefined then getProp currentObject name
                 else getProp parentObject name))"
    if ok: "mergeObjects parentObject currentObject path configured ignoreProperties = Inr result"
      and gathered: "gatherMergeBehaviors currentObject ignoreProperties (objectKeys currentObject) [] Map.empty
          = Inr (filtered, mergeBehaviorMap)"
      and listed: "name \<in> set (mergePropertyNames parentObject currentObject ignoreProperties)"
  proof -
    note atName = mergeObjects_property[OF ok gathered listed]
    have a: "getProp result name = JNull
              \<and> getPropertyOriginalValue result name = getPropertyOriginalValue currentObject name"
      if "getProp currentObject name = JNull"
         "getProp parentObject name = JUndefined
           \<or> inheritanceType (effectiveInheritance mergeBehaviorMap configured JNull
                                (getProp parentObject name) name) = Replace"
      using nullStep[OF that] atName by auto
    have b: "getProp result name = getProp parentObject name
              \<and> getPropertyOriginalValue result name = getPropertyOriginalValue parentObject name"
      if "getProp currentObject name = JUndefined" "getProp parentObject name \<noteq> JUndefined"
      using omitStep[OF that] atName by auto
    have c: "getProp result name =
                (if getProp currentObject name \<noteq> JUndefined then getProp currentObject name
                 else getProp parentObject name)"
      if "inheritanceType (effectiveInheritance mergeBehaviorMap configured (getProp currentObject name)
                              (getProp parentObject name) name) = Replace"
      using replaceStep[OF that] atName by (auto dest: useValueOf_value split: if_splits)
    from a b c show ?thesis by blast
  qed
  from replaceStep nullStep omitStep default results show ?thesis by blast
qed

theorem C10_null_child_counts_as_defined_witness:
  "mergeObjects baseAThenB leafNullA ''/leaf.json'' Map.empty rootIgnored = Inr mergedNullAThenB
   \<and> gatherMergeBehaviors leafNullA rootIgnored (objectKeys leafNullA) [] Map.empty = Inr ([''a''], Map.empty)
   \<and> ''a'' \<in> set (mergePropertyNames baseAThenB leafNullA rootIgnored)
   \<and> ''b'' \<in> set (mergePropertyNames baseAThenB leafNullA rootIgnored)
   \<and> getProp baseAThenB ''a'' = JNum 1 \<and> getProp leafNullA ''a'' = JNull
   \<and> getProp baseAThenB ''b'' = JNum 2 \<and> getProp leafNullA ''b'' = JUndefined
   \<and> mergeProperty baseAThenB leafNullA ''/leaf.json'' Map.empty Map.empty ''a'' = Inr (JNull, Some JNull)
   \<and> mergeProperty baseAThenB leafNullA ''/leaf.json'' Map.empty Map.empty ''b'' = Inr (JNum 2, Some (JNum 2))
   \<and> getProp mergedNullAThenB ''a'' = JNull
   \<and> getProp mergedNullAThenB ''b'' = JNum 2"
proof -
  have h1: "mergeObjects baseAThenB leafNullA ''/leaf.json'' Map.empty rootIgnored = Inr mergedNullAThenB"
    by code_simp
  have h2: "gatherMergeBehaviors leafNullA rootIgnored (objectKeys leafNullA) [] Map.empty
              = Inr ([''a''], Map.empty)"
    by (simp add: leafNullA_def rootIgnored_def objectKeys_def orEmptyObject_def mergeBehaviorTarget_def Let_def)
  have h3: "''a'' \<in> set (mergePropertyNames baseAThenB leafNullA rootIgnored)"
    and h4: "''b'' \<in> set (mergePropertyNames baseAThenB leafNullA rootIgnored)"
    by code_simp+
  have pa: "getProp baseAThenB ''a'' = JNum 1" and ca: "getProp leafNullA ''a'' = JNull"
    and pb: "getProp baseAThenB ''b'' = JNum 2" and cb: "getProp leafNullA ''b'' = JUndefined"
    by code_simp+
  have oa: "getPropertyOriginalValue leafNullA ''a'' = Inr JNull"
    and ob: "getPropertyOriginalValue baseAThenB ''b'' = Inr (JNum 2)"
    by code_simp+
  have d: "inheritanceType (effectiveInheritance Map.empty Map.empty JNull (getProp baseAThenB ''a'') ''a'') = Replace"
    by (simp add: effectiveInheritance_def)
  note ta = C10_null_child_counts_as_defined[of leafNullA "''a''" baseAThenB Map.empty Map.empty
              "''/leaf.json''" rootIgnored mergedNullAThenB "[''a'']"]
  note tb = C10_null_child_counts_as_defined[of leafNullA "''b''" baseAThenB Map.empty Map.empty
              "''/leaf.json''" rootIgnored mergedNullAThenB "[''a'']"]
  from ta ca d oa have sa: "mergeProperty baseAThenB leafNullA ''/leaf.json'' Map.empty Map.empty ''a''
                             = Inr (JNull, Some JNull)"
    by auto
  from tb cb pb ob have sb: "mergeProperty baseAThenB leafNullA ''/leaf.json'' Map.empty Map.empty ''b''
                             = Inr (JNum 2, Some (JNum 2))"
    by auto
  from ta h1 h2 h3 ca d have ra: "getProp mergedNullAThenB ''a'' = JNull" by blast
  from tb h1 h2 h4 cb pb have rb: "getProp mergedNullAThenB ''b'' = JNum 2" by auto
  from h1 h2 h3 h4 pa ca pb cb sa sb ra rb show ?thesis by simp
qed

lemma map_of_rev_distinct: "distinct (map fst xs) \<Longrightarrow> map_of (rev xs) = map_of xs"
proof (induction xs)
  case Nil
  then show ?case by simp
next
  case (Cons x xs)
  then have "fst x \<notin> dom (map_of xs)" by (auto simp: dom_map_of_conv_image_fst)
  then have "[fst x \<mapsto> snd x] ++ map_of xs = (map_of xs)(fst x \<mapsto> snd x)"
    by (auto simp: map_add_def fun_eq_iff split: option.splits)
  with Cons show ?case by (cases x) simp
qed

lemma map_of_fold_update:
  "map_of (fold (\<lambda>(k, v) acc. AList.update k v acc) b a) = map_of a ++ map_of (rev b)"
proof (induction b arbitrary: a)
  case Nil
  then show ?case by simp
next
  case (Cons x b)
  obtain k v where x: "x = (k, v)" by (cases x)
  have "map_of (fold (\<lambda>(k, v) acc. AList.update k v acc) (x # b) a)
        = map_of (AList.update k v a) ++ map_of (rev b)"
    using Cons.IH[of "AList.update k v a"] x by simp
  also have "\<dots> = (map_of a ++ [k \<mapsto> v]) ++ map_of (rev b)"
    by (simp add: update_conv')
  finally show ?case using x by simp
qed

lemma map_of_spread:
  "distinct (map fst b) \<Longrightarrow> map_of (spread a b) = map_of a ++ map_of b"
  by (simp add: spread_def map_of_fold_update map_of_rev_distinct)

lemma mergeProperty_append:
  assumes "getProp p n = JArr xs (Some pa)" and "getProp c n = JArr ys (Some ca)"
    and "inheritanceType (effectiveInheritance bmap conf (getProp c n) (getProp p n) n) = Append"
  shows "mergeProperty p c path conf bmap n =
           Inr (JArr (xs @ ys) (Some (None, spread (snd pa) (snd ca))), None)"
  using assms by (subst mergeProperty.simps) (simp add: Let_def)

text \<open>
  The append policy. For a name of the merge property-name set whose parent and child values
  are annotated arrays and whose effective policy is append, a successful merge gives the array
  of the parent's elements followed by the child's elements; that array has no source file path
  of its own, and its \<open>originalValues\<close> is the parent's record overwritten by the child's, so
  \<open>getPropertyOriginalValue\<close> on it answers with the child's record for every key the child's
  record has, and with the parent's record otherwise.
\<close>

lemma append_concatenates:
  assumes ok: "mergeObjects parentObject currentObject path configured ignoreProperties = Inr result"
    and gathered: "gatherMergeBehaviors currentObject ignoreProperties (objectKeys currentObject) [] Map.empty
                     = Inr (filtered, mergeBehaviorMap)"
    and listed: "name \<in> set (mergePropertyNames parentObject currentObject ignoreProperties)"
    and parentArray: "getProp parentObject name = JArr xs (Some parentAnnotation)"
    and childArray: "getProp currentObject name = JArr ys (Some childAnnotation)"
    and childKeys: "distinct (map fst (snd childAnnotation))"
    and policy: "inheritanceType (effectiveInheritance mergeBehaviorMap configured
                    (getProp currentObject name) (getProp parentObject name) name) = Append"
  shows "getProp result name =
           JArr (xs @ ys) (Some (None, spread (snd parentAnnotation) (snd childAnnotation)))
       \<and> arrayElements (getProp result name) = xs @ ys
       \<and> getObjectSourceFilePath (getProp result name) = None
       \<and> (\<forall>key. getPropertyOriginalValue (getProp result name) key =
                  (if key \<in> fst ` set (snd childAnnotation)
                   then getPropertyOriginalValue (getProp currentObject name) key
                   else getPropertyOriginalValue (getProp parentObject name) key))"
proof -
  from mergeObjects_property[OF ok gathered listed] obtain v orig where
    step: "mergeProperty parentObject currentObject path configured mergeBehaviorMap name = Inr (v, orig)"
    and res: "getProp result name = v"
    by blast
  from step mergeProperty_append[OF parentArray childArray policy, of path] res
  have r: "getProp result name =
           JArr (xs @ ys) (Some (None, spread (snd parentAnnotation) (snd childAnnotation)))"
    by simp
  have lookups: "getPropertyOriginalValue (getProp result name) key =
                  (if key \<in> fst ` set (snd childAnnotation)
                   then getPropertyOriginalValue (getProp currentObject name) key
                   else getPropertyOriginalValue (getProp parentObject name) key)" for key
  proof (cases "map_of (snd childAnnotation) key")
    case None
    then have "key \<notin> fst ` set (snd childAnnotation)" by (simp add: map_of_eq_None_iff)
    with None show ?thesis
      by (simp add: r parentArray childArray getPropertyOriginalValue_def map_of_spread[OF childKeys]
           map_add_def)
  next
    case (Some x)
    then have "key \<in> fst ` set (snd childAnnotation)"
      by (metis map_of_eq_None_iff option.distinct(1))
    with Some show ?thesis
      by (simp add: r parentArray childArray getPropertyOriginalValue_def map_of_spread[OF childKeys]
           map_add_def)
  qed
  from r lookups show ?thesis by (simp add: getObjectSourceFilePath_def)
qed

lemma append_concatenates_example:
  "mergeObjects baseTags leafTags ''/leaf.json'' Map.empty rootIgnored = Inr mergedTags
   \<and> getProp baseTags ''tags'' = JArr [JNum 1, JNum 2] (Some (Some ''/base.json'', [(''0'', JNum 1), (''1'', JNum 2)]))
   \<and> getProp leafTags ''tags'' = JArr [JNum 3, JNum 4] (Some (Some ''/leaf.json'', [(''0'', JNum 3), (''1'', JNum 4)]))
   \<and> arrayElements (getProp mergedTags ''tags'') = [JNum 1, JNum 2, JNum 3, JNum 4]
   \<and> getPropertyOriginalValue (getProp mergedTags ''tags'') ''1''
       = getPropertyOriginalValue (getProp leafTags ''tags'') ''1''"
proof -
  have h1: "mergeObjects baseTags leafTags ''/leaf.json'' Map.empty rootIgnored = Inr mergedTags"
    by code_simp
  have h2: "gatherMergeBehaviors leafTags rootIgnored (objectKeys leafTags) [] Map.empty
              = Inr ([''tags''], Map.empty)"
    by (simp add: leafTags_def rootIgnored_def objectKeys_def orEmptyObject_def mergeBehaviorTarget_def Let_def)
  have h3: "''tags'' \<in> set (mergePropertyNames baseTags leafTags rootIgnored)"
    by code_simp
  have p: "getProp baseTags ''tags''
             = JArr [JNum 1, JNum 2] (Some (Some ''/base.json'', [(''0'', JNum 1), (''1'', JNum 2)]))"
    by code_simp
  have c: "getProp leafTags ''tags''
             = JArr [JNum 3, JNum 4] (Some (Some ''/leaf.json'', [(''0'', JNum 3), (''1'', JNum 4)]))"
    by code_simp
  have d: "distinct (map fst (snd (Some ''/leaf.json'', [(''0'', JNum 3), (''1'', JNum 4)])))"
    by simp
  have pol: "inheritanceType (effectiveInheritance Map.empty Map.empty
                    (getProp leafTags ''tags'') (getProp baseTags ''tags'') ''tags'') = Append"
    by (simp add: p c effectiveInheritance_def)
  note t = append_concatenates[OF h1 h2 h3 p c d pol]
  from t have e: "arrayElements (getProp mergedTags ''tags'') = [JNum 1, JNum 2] @ [JNum 3, JNum 4]"
    by blast
  from t have "getPropertyOriginalValue (getProp mergedTags ''tags'') ''1'' =
                 (if ''1'' \<in> fst ` set (snd (Some ''/leaf.json'', [(''0'', JNum 3), (''1'', JNum 4)]))
                  then getPropertyOriginalValue (getProp leafTags ''tags'') ''1''
                  else getPropertyOriginalValue (getProp baseTags ''tags'') ''1'')"
    by blast
  then have l: "getPropertyOriginalValue (getProp mergedTags ''tags'') ''1''
                  = getPropertyOriginalValue (getProp leafTags ''tags'') ''1''"
    by simp
  from h1 p c e l show ?thesis by simp
qed

text \<open>
  Claim C3. The elements are concatenated and the two records are combined with the child's
  entries winning, as \<open>append_concatenates\<close> shows, but the lookup on the merged array does
  not recover the source value of each element: the combined record is built with
  \<^verbatim>\<open>{ ...parent.originalValues, ...child.originalValues }\<close>, and both records are
  keyed by the indices the elements had in their own arrays. In the merge of \<open>[1, 2]\<close> with
  \<open>[3, 4]\<close> under the append policy the result is \<open>[1, 2, 3, 4]\<close>; its element at index 0
  is the parent's 1, recorded as 1 in the parent, yet \<open>getPropertyOriginalValue\<close> under key 0
  answers 3; its element at index 2 is the child's 3, and the lookup under key 2 answers
  undefined.
\<close>

theorem C3_index_lookup_misaligned:
  "mergeConfigurationFiles Map.empty baseTags leafTags ''/leaf.json'' = Inr mergedTags
   \<and> getProp mergedTags ''tags'' = mergedTagsArray
   \<and> getProp mergedTagsArray ''0'' = JNum 1
   \<and> getPropertyOriginalValue (getProp baseTags ''tags'') ''0'' = Inr (JNum 1)
   \<and> getPropertyOriginalValue mergedTagsArray ''0'' = Inr (JNum 3)
   \<and> getProp mergedTagsArray ''2'' = JNum 3
   \<and> getPropertyOriginalValue mergedTagsArray ''2'' = Inr JUndefined"
  by code_simp

lemma mergeProperty_merge:
  assumes "getProp c n \<noteq> JUndefined" and "getProp p n \<noteq> JUndefined"
    and "inheritanceType (effectiveInheritance bmap conf (getProp c n) (getProp p n) n) = Merge"
  shows "mergeProperty p c path conf bmap n =
           (if getProp p n = JNull \<or> getProp c n = JNull then Inl (MergeNull n)
            else if (truthy (getProp c n) \<and> \<not> typeofObject (getProp c n))
                    \<or> (truthy (getProp p n) \<and> \<not> typeofObject (getProp p n))
            then Inl (MergePrimitive n)
            else if isArray (getProp c n) \<or> isArray (getProp p n) then Inl (MergeNotKeyed n)
            else (case mergeObjects (getProp p n) (getProp c n) path Map.empty {} of
                    Inl e \<Rightarrow> Inl e
                  | Inr merged \<Rightarrow> Inr (merged, None)))"
  using assms by (subst mergeProperty.simps) (simp add: Let_def)

text \<open>
  Claim C7 holds for null, for arrays, for the primitives that are truthy and for two keyed
  objects, but not for the falsy primitives \<open>0\<close>, \<open>false\<close> and the empty string: the guard
  \<^verbatim>\<open>propertyValue && typeof propertyValue !== 'object'\<close> lets them through, and the
  recursive call then reads them as \<^verbatim>\<open>{}\<close>. With the property \<open>settings\<close> configured
  for the merge policy, a parent \<open>{a: 1}\<close> and a child value \<open>0\<close>, the merge succeeds with a
  copy of the parent's object.
\<close>

theorem C7_falsy_primitive_is_merged:
  "mergeConfigurationFiles mergeSettings baseSettings leafSettingsZero ''/leaf.json''
     = Inr (JObj [(''settings'', JObj [(''a'', JNum 1)] (Some (Some ''/leaf.json'', [(''a'', JNum 1)])))]
              (Some (Some ''/leaf.json'', [])))
   \<and> mergeConfigurationFiles mergeSettings baseSettings leafSettingsSeven ''/leaf.json''
     = Inl (MergePrimitive ''settings'')
   \<and> mergeConfigurationFiles mergeSettings baseSettings leafSettingsNull ''/leaf.json''
     = Inl (MergeNull ''settings'')
   \<and> mergeConfigurationFiles mergeSettings baseSettings leafSettingsArray ''/leaf.json''
     = Inl (MergeNotKeyed ''settings'')
   \<and> mergeConfigurationFiles mergeSettings baseSettingsAB leafSettingsBC ''/leaf.json''
     = Inr (JObj [(''settings'', JObj [(''a'', JNum 1), (''b'', JNum 3), (''c'', JNum 4)]
                     (Some (Some ''/leaf.json'', [(''a'', JNum 1), (''b'', JNum 3), (''c'', JNum 4)])))]
              (Some (Some ''/leaf.json'', [])))"
  by code_simp



lemma parseMergeBehavior_Inl: "parseMergeBehavior c d t = Inl e \<Longrightarrow> isMergeDirectiveError e"
  by (auto simp: parseMergeBehavior_def Let_def split: if_splits jvalue.splits)

lemma parseMergeBehavior_Inr:
  "parseMergeBehavior c d t = Inr b \<Longrightarrow>
     \<exists>s. getProp c d = JStr s \<and> t \<in> set (objectKeys c) \<and> typeofObject (getProp c t)
        \<and> inheritanceFunction b = None
        \<and> inheritanceType b = (if toLowerCase s = ''append'' then Append
                                else if toLowerCase s = ''merge'' then Merge else Replace)
        \<and> toLowerCase s \<in> {''append'', ''merge'', ''replace''}"
  by (auto simp: parseMergeBehavior_def Let_def split: if_splits jvalue.splits)

lemma gather_Inl:
  "gatherMergeBehaviors c ig names f m = Inl e
    \<Longrightarrow> \<exists>d t. d \<in> set names \<and> d \<notin> ig \<and> mergeBehaviorTarget d = Some t \<and> parseMergeBehavior c d t = Inl e"
proof (induction names arbitrary: f m)
  case Nil
  then show ?case by simp
next
  case (Cons a names)
  show ?case
  proof (cases "a \<in> ig")
    case True
    with Cons.prems have "gatherMergeBehaviors c ig names f m = Inl e" by simp
    from Cons.IH[OF this] show ?thesis by auto
  next
    case False
    show ?thesis
    proof (cases "mergeBehaviorTarget a")
      case None
      with False Cons.prems have "gatherMergeBehaviors c ig names (f @ [a]) m = Inl e" by simp
      from Cons.IH[OF this] show ?thesis by auto
    next
      case (Some t)
      show ?thesis
      proof (cases "parseMergeBehavior c a t")
        case (Inl e')
        with False Some Cons.prems have "e' = e" by simp
        with Inl False Some show ?thesis by auto
      next
        case (Inr b)
        with False Some Cons.prems have "gatherMergeBehaviors c ig names f (m(t \<mapsto> b)) = Inl e" by simp
        from Cons.IH[OF this] show ?thesis by auto
      qed
    qed
  qed
qed





lemma mergeObjects_gather_Inl:
  "gatherMergeBehaviors c ig (objectKeys c) [] Map.empty = Inl e \<Longrightarrow> mergeObjects p c path conf ig = Inl e"
  by (subst mergeObjects.simps) simp








lemma update_fresh: "k \<notin> fst ` set al \<Longrightarrow> AList.update k v al = al @ [(k, v)]"
  by (induction al) auto

lemma mergeProperties_all_used:
  assumes "\<forall>n\<in>set names. mergeProperty p c path conf bmap n = Inr (f n, Some (g n))"
    and "distinct names"
    and "set names \<inter> fst ` set props = {}"
    and "set names \<inter> fst ` set origs = {}"
  shows "mergeProperties p c path conf bmap names props origs
           = Inr (props @ map (\<lambda>n. (n, f n)) names, origs @ map (\<lambda>n. (n, g n)) names)"
  using assms
proof (induction names arbitrary: props origs)
  case Nil
  then show ?case by (simp add: mergeProperties_Nil)
next
  case (Cons m rest)
  from Cons.prems have step: "mergeProperty p c path conf bmap m = Inr (f m, Some (g m))" by simp
  from Cons.prems have fp: "m \<notin> fst ` set props" and fo: "m \<notin> fst ` set origs" by auto
  have up: "AList.update m (f m) props = props @ [(m, f m)]"
    and uo: "AList.update m (g m) origs = origs @ [(m, g m)]"
    using fp fo by (simp_all add: update_fresh)
  have rest: "mergeProperties p c path conf bmap rest (props @ [(m, f m)]) (origs @ [(m, g m)])
           = Inr ((props @ [(m, f m)]) @ map (\<lambda>n. (n, f n)) rest,
                  (origs @ [(m, g m)]) @ map (\<lambda>n. (n, g n)) rest)"
    using Cons.prems by (intro Cons.IH) auto
  show ?case
    by (simp add: mergeProperties_Cons step up uo rest)
qed

lemma map_lookup_keys:
  "distinct (map fst ps) \<Longrightarrow>
     map (\<lambda>n. (n, case map_of ps n of Some x \<Rightarrow> x | None \<Rightarrow> d)) (map fst ps) = ps"
proof (induction ps)
  case Nil
  then show ?case by simp
next
  case (Cons a ps)
  obtain k v where a: "a = (k, v)" by (cases a)
  from Cons.prems a have k: "k \<notin> fst ` set ps" and dist: "distinct (map fst ps)" by auto
  have "map (\<lambda>n. (n, case map_of ((k, v) # ps) n of Some x \<Rightarrow> x | None \<Rightarrow> d)) (map fst ps)
        = map (\<lambda>n. (n, case map_of ps n of Some x \<Rightarrow> x | None \<Rightarrow> d)) (map fst ps)"
    using k by (intro map_cong) auto
  with Cons.IH[OF dist] a show ?case by simp
qed

lemma gather_no_directives:
  "\<forall>n\<in>set names. n \<notin> ig \<and> mergeBehaviorTarget n = None
    \<Longrightarrow> gatherMergeBehaviors c ig names f m = Inr (f @ names, m)"
  by (induction names arbitrary: f) auto

lemma mergeConfigurationFiles_plain_identity:
  assumes shape: "configurationJson = JObj properties (Some (Some path, originalValues))"
    and keys: "distinct (map fst properties)"
    and aligned: "map fst originalValues = map fst properties"
    and defined: "\<forall>v\<in>snd ` set properties. v \<noteq> JUndefined"
    and plain: "\<forall>k\<in>fst ` set properties.
                  k \<noteq> ''extends'' \<and> k \<noteq> ''$schema'' \<and> mergeBehaviorTarget k = None"
  shows "mergeConfigurationFiles inheritance JUndefined configurationJson path = Inr configurationJson"
proof -
  let ?c = "configurationJson"
  let ?ig = "{''extends'', ''$schema''}"
  let ?names = "map fst properties"
  have ok: "objectKeys ?c = ?names" using shape by (simp add: objectKeys_def orEmptyObject_def)
  have g: "gatherMergeBehaviors ?c ?ig (objectKeys ?c) [] Map.empty = Inr (?names, Map.empty)"
    using gather_no_directives[of ?names ?ig ?c "[]" Map.empty] plain ok by auto
  have pk: "objectKeys JUndefined = []" by (simp add: objectKeys_def orEmptyObject_def)
  let ?f = "\<lambda>n. case map_of properties n of Some x \<Rightarrow> x | None \<Rightarrow> JUndefined"
  let ?g = "\<lambda>n. case map_of originalValues n of Some x \<Rightarrow> x | None \<Rightarrow> JUndefined"
  have steps: "\<forall>n\<in>set ?names. mergeProperty JUndefined ?c path inheritance Map.empty n = Inr (?f n, Some (?g n))"
  proof
    fix n assume n: "n \<in> set ?names"
    then obtain v where v: "map_of properties n = Some v"
      by (metis map_of_eq_None_iff not_Some_eq set_map)
    then have "v \<in> snd ` set properties" by (metis map_of_SomeD snd_conv image_eqI)
    with defined have vd: "v \<noteq> JUndefined" by blast
    have c: "getProp ?c n = v" using shape v by (simp add: getProp_JObj)
    have p: "getProp JUndefined n = JUndefined" by (simp add: getProp_def orEmptyObject_def)
    have "mergeProperty JUndefined ?c path inheritance Map.empty n = useValueOf ?c n (getProp ?c n)"
      using c vd p by (intro mergeProperty_child_only) simp_all
    also have "\<dots> = Inr (v, Some (?g n))"
      using shape c by (simp add: useValueOf_def getPropertyOriginalValue_JObj)
    finally show "mergeProperty JUndefined ?c path inheritance Map.empty n = Inr (?f n, Some (?g n))"
      using v by simp
  qed
  have loop: "mergeProperties JUndefined ?c path inheritance Map.empty ?names [] []
                = Inr ([] @ map (\<lambda>n. (n, ?f n)) ?names, [] @ map (\<lambda>n. (n, ?g n)) ?names)"
    using steps keys by (intro mergeProperties_all_used) simp_all
  have props: "map (\<lambda>n. (n, ?f n)) ?names = properties"
    using keys by (rule map_lookup_keys)
  have origs: "map (\<lambda>n. (n, ?g n)) ?names = originalValues"
    using map_lookup_keys[of originalValues JUndefined] keys aligned by simp
  have dd: "dedupe ?names = ?names" using keys by (rule dedupe_id)
  have res: "mergeProperties JUndefined ?c path inheritance Map.empty ?names [] []
                = Inr (properties, originalValues)"
    using loop props origs by simp
  have "mergeObjects JUndefined ?c path inheritance ?ig
          = Inr (JObj properties (Some (Some path, originalValues)))"
    by (subst mergeObjects.simps) (simp add: g pk dd res)
  with shape show ?thesis
    unfolding mergeConfigurationFiles_def by simp
qed


section \<open>Properties of the loader\<close>

lemma loadConfigurationFileInner_no_parent:
  assumes "readFileAsync os path = Inr (WellFormed json)"
    and "applyJsonPathMetadata this path (annotateProperties path json) = Inr configurationJson"
    and "configurationJson \<noteq> JNull" "configurationJson \<noteq> JUndefined"
    and "\<not> truthy (getProp configurationJson ''extends'')"
  shows "loadConfigurationFileInner this os path visited rig s =
           (mergeAndValidate this JUndefined configurationJson path, visited,
            s\<lparr>readLog := readLog s @ [path]\<rparr>)"
  using assms by (subst loadConfigurationFileInner.simps) (simp add: Let_def)

text \<open>
  Claim C9, as amended. Let a file be readable and well formed, and let \<open>configurationJson\<close>
  be its parsed and annotated value after the path properties were rewritten. Let it be a keyed
  object (not an array, a string, a number, a boolean or null) that still carries the annotation
  of the file, that is the file's own path and an \<open>originalValues\<close> record with the object's
  keys in the object's order, as annotation followed by a rewriting of property values in place
  leaves it; let its keys be distinct and none of its values undefined, as in every parsed
  object; and let it have no key \<open>extends\<close>, no key \<open>$schema\<close> and no merge behavior key.
  Then the merge with an absent parent returns \<open>configurationJson\<close> itself, properties and
  provenance; and if the schema accepts it, the load of the file is fulfilled with it, and so is
  the top-level load of a project whose configuration path is this file and has no cache entry.
\<close>

theorem C9_no_extends_identity:
  assumes read: "readFileAsync os path = Inr (WellFormed json)"
    and rewritten: "applyJsonPathMetadata this path (annotateProperties path json) = Inr configurationJson"
    and shape: "configurationJson = JObj properties (Some (Some path, originalValues))"
    and keys: "distinct (map fst properties)"
    and aligned: "map fst originalValues = map fst properties"
    and defined: "\<forall>v\<in>snd ` set properties. v \<noteq> JUndefined"
    and plain: "\<forall>k\<in>fst ` set properties.
                  k \<noteq> ''extends'' \<and> k \<noteq> ''$schema'' \<and> mergeBehaviorTarget k = None"
  shows "mergeConfigurationFiles (propertyInheritanceTypes this) JUndefined configurationJson path
           = Inr configurationJson
       \<and> (schemaValidates this configurationJson
          \<longrightarrow> loadConfigurationFileInner this os path visited rig s
                = (Fulfills configurationJson, visited, s\<lparr>readLog := readLog s @ [path]\<rparr>))
       \<and> (schemaValidates this configurationJson
            \<and> getConfigurationFilePathForProject this os projectPath = path
            \<and> configPromiseCache s path = None
          \<longrightarrow> fst (loadConfigurationFileForProject this os projectPath rig s) = Fulfills configurationJson)"
proof -
  have m: "mergeConfigurationFiles (propertyInheritanceTypes this) JUndefined configurationJson path
           = Inr configurationJson"
    using shape keys aligned defined plain by (rule mergeConfigurationFiles_plain_identity)
  from plain have "''extends'' \<notin> fst ` set properties" by blast
  then have "map_of properties ''extends'' = None" by (simp add: map_of_eq_None_iff)
  with shape have ne: "\<not> truthy (getProp configurationJson ''extends'')"
    by (simp add: getProp_JObj)
  from shape have nn: "configurationJson \<noteq> JNull" "configurationJson \<noteq> JUndefined" by simp_all
  have inner: "loadConfigurationFileInner this os path v rig t
                = (Fulfills configurationJson, v, t\<lparr>readLog := readLog t @ [path]\<rparr>)"
    if "schemaValidates this configurationJson" for v t
    using loadConfigurationFileInner_no_parent[OF read rewritten nn ne, of v rig t] m that
    by (simp add: mergeAndValidate_def)
  have top: "fst (loadConfigurationFileForProject this os projectPath rig s) = Fulfills configurationJson"
    if valid: "schemaValidates this configurationJson"
      and start: "getConfigurationFilePathForProject this os projectPath = path"
      and fresh: "configPromiseCache s path = None"
  proof -
    have "fst (loadConfigurationFileInnerWithCache this os path {} rig s) = Fulfills configurationJson"
      using fresh inner[OF valid]
      by (subst loadConfigurationFileInnerWithCache.simps) (simp add: Let_def)
    with start show ?thesis
      by (cases "loadConfigurationFileInnerWithCache this os path {} rig s")
         (simp add: loadConfigurationFileForProject_def)
  qed
  from m inner top show ?thesis by blast
qed

theorem C9_no_extends_identity_witness:
  "readFileAsync namedDisk ''/p/a.json'' = Inr (WellFormed namedJson)
   \<and> applyJsonPathMetadata plainConfig ''/p/a.json'' (annotateProperties ''/p/a.json'' namedJson)
       = Inr (annotateProperties ''/p/a.json'' namedJson)
   \<and> annotateProperties ''/p/a.json'' namedJson
       = JObj [(''name'', JStr ''x'')] (Some (Some ''/p/a.json'', [(''name'', JStr ''x'')]))
   \<and> schemaValidates plainConfig (annotateProperties ''/p/a.json'' namedJson)
   \<and> getConfigurationFilePathForProject plainConfig namedDisk ''/p'' = ''/p/a.json''
   \<and> configPromiseCache newLoaderState ''/p/a.json'' = None
   \<and> mergeConfigurationFiles (propertyInheritanceTypes plainConfig) JUndefined
         (annotateProperties ''/p/a.json'' namedJson) ''/p/a.json''
       = Inr (annotateProperties ''/p/a.json'' namedJson)
   \<and> fst (loadConfigurationFileInner plainConfig namedDisk ''/p/a.json'' {''/p/a.json''} None newLoaderState)
       = Fulfills (annotateProperties ''/p/a.json'' namedJson)
   \<and> fst (loadConfigurationFileForProject plainConfig namedDisk ''/p'' None newLoaderState)
       = Fulfills (annotateProperties ''/p/a.json'' namedJson)"
proof -
  have read: "readFileAsync namedDisk ''/p/a.json'' = Inr (WellFormed namedJson)"
    by code_simp
  have rewritten: "applyJsonPathMetadata plainConfig ''/p/a.json'' (annotateProperties ''/p/a.json'' namedJson)
       = Inr (annotateProperties ''/p/a.json'' namedJson)"
    by (simp add: plainConfig_def)
  have shape: "annotateProperties ''/p/a.json'' namedJson
       = JObj [(''name'', JStr ''x'')] (Some (Some ''/p/a.json'', [(''name'', JStr ''x'')]))"
    by code_simp
  have keys: "distinct (map fst [(''name'', JStr ''x'')])" by simp
  have aligned: "map fst [(''name'', JStr ''x'')] = map fst [(''name'', JStr ''x'')]" by simp
  have defined: "\<forall>v\<in>snd ` set [(''name'', JStr ''x'')]. v \<noteq> JUndefined" by simp
  have plain: "\<forall>k\<in>fst ` set [(''name'', JStr ''x'')].
                  k \<noteq> ''extends'' \<and> k \<noteq> ''$schema'' \<and> mergeBehaviorTarget k = None"
    by (simp add: mergeBehaviorTarget_def)
  have valid: "schemaValidates plainConfig (annotateProperties ''/p/a.json'' namedJson)"
    by (simp add: plainConfig_def)
  have start: "getConfigurationFilePathForProject plainConfig namedDisk ''/p'' = ''/p/a.json''"
    by code_simp
  have fresh: "configPromiseCache newLoaderState ''/p/a.json'' = None"
    by (simp add: newLoaderState_def)
  note t = C9_no_extends_identity[OF read rewritten shape keys aligned defined plain,
      of "{''/p/a.json''}" None newLoaderState "''/p''"]
  from t have m: "mergeConfigurationFiles (propertyInheritanceTypes plainConfig) JUndefined
         (annotateProperties ''/p/a.json'' namedJson) ''/p/a.json''
       = Inr (annotateProperties ''/p/a.json'' namedJson)"
    by (rule conjunct1)
  from t[THEN conjunct2, THEN conjunct1, THEN mp, OF valid]
  have i: "fst (loadConfigurationFileInner plainConfig namedDisk ''/p/a.json'' {''/p/a.json''} None newLoaderState)
       = Fulfills (annotateProperties ''/p/a.json'' namedJson)"
    by simp
  from t[THEN conjunct2, THEN conjunct2, THEN mp, OF conjI[OF valid conjI[OF start fresh]]]
  have l: "fst (loadConfigurationFileForProject plainConfig namedDisk ''/p'' None newLoaderState)
       = Fulfills (annotateProperties ''/p/a.json'' namedJson)" .
  from read rewritten shape valid start fresh m i l show ?thesis by simp
qed

text \<open>
  Claim C9 as stated fails for three kinds of file without \<open>extends\<close>. A \<open>$schema\<close> key
  is among the ignored properties and is missing from the loaded result and from its
  \<open>originalValues\<close>. A file that is the array \<open>[7, 8]\<close> is loaded as the keyed object
  \<open>{0: 7, 1: 8}\<close>, since the merge always builds a new object from the keys. And a merge
  behavior key is consumed by the first pass of the merge and is missing from the result.
\<close>

theorem C9_not_identity_counterexample:
  "getProp (annotateProperties ''/p/a.json'' schemaJson) ''extends'' = JUndefined
   \<and> fst (loadConfigurationFileInner plainConfig schemaDisk ''/p/a.json'' {''/p/a.json''} None newLoaderState)
       = Fulfills (JObj [(''name'', JStr ''x'')] (Some (Some ''/p/a.json'', [(''name'', JStr ''x'')])))
   \<and> annotateProperties ''/p/a.json'' schemaJson
       = JObj [(''$schema'', JStr ''s.json''), (''name'', JStr ''x'')]
           (Some (Some ''/p/a.json'', [(''$schema'', JStr ''s.json''), (''name'', JStr ''x'')]))
   \<and> fst (loadConfigurationFileInner plainConfig schemaDisk ''/p/a.json'' {''/p/a.json''} None newLoaderState)
       \<noteq> Fulfills (annotateProperties ''/p/a.json'' schemaJson)
   \<and> getProp (annotateProperties ''/p/a.json'' arrayJson) ''extends'' = JUndefined
   \<and> annotateProperties ''/p/a.json'' arrayJson
       = JArr [JNum 7, JNum 8] (Some (Some ''/p/a.json'', [(''0'', JNum 7), (''1'', JNum 8)]))
   \<and> fst (loadConfigurationFileInner plainConfig arrayDisk ''/p/a.json'' {''/p/a.json''} None newLoaderState)
       = Fulfills (JObj [(''0'', JNum 7), (''1'', JNum 8)]
                     (Some (Some ''/p/a.json'', [(''0'', JNum 7), (''1'', JNum 8)])))
   \<and> getProp leafTagADirected ''extends'' = JUndefined
   \<and> getProp leafTagADirected ''$schema'' = JUndefined
   \<and> getProp leafTagADirected ''$tags.mergeBehavior'' = JStr ''Append''
   \<and> mergeConfigurationFiles Map.empty JUndefined leafTagADirected ''/leaf.json''
       = Inr (JObj [(''tags'', JArr [JStr ''a''] (Some (Some ''/leaf.json'', [(''0'', JStr ''a'')])))]
                (Some (Some ''/leaf.json'',
                   [(''tags'', JArr [JStr ''a''] (Some (Some ''/leaf.json'', [(''0'', JStr ''a'')])))])))"
  by code_simp

lemma withCache_hit:
  "configPromiseCache s path = Some entry \<Longrightarrow>
   loadConfigurationFileInnerWithCache this os path visited rig s =
     (if path \<in> visited then (Rejects (LoopDetected path), visited, s)
      else (await entry, insert path visited, s))"
  by (subst loadConfigurationFileInnerWithCache.simps) simp

lemma withCache_miss:
  "configPromiseCache s path = None \<Longrightarrow>
   loadConfigurationFileInnerWithCache this os path visited rig s =
     (if path \<in> visited
      then (Rejects (LoopDetected path), visited,
            s\<lparr>configPromiseCache := (configPromiseCache s)(path \<mapsto> Pending)\<rparr>)
      else (case loadConfigurationFileInner this os path (insert path visited) rig
                   (s\<lparr>configPromiseCache := (configPromiseCache s)(path \<mapsto> Pending)\<rparr>) of
              (result, visited', s2) \<Rightarrow>
                (result, visited',
                 s2\<lparr>configPromiseCache := (configPromiseCache s2)(path \<mapsto> settle result)\<rparr>)))"
  by (subst loadConfigurationFileInnerWithCache.simps) (simp add: Let_def)

lemma withCache_visited:
  "path \<in> visited \<Longrightarrow>
   fst (loadConfigurationFileInnerWithCache this os path visited rig s) = Rejects (LoopDetected path)"
  by (cases "configPromiseCache s path") (simp_all add: withCache_hit withCache_miss)

lemma await_settle [simp]: "await (settle r) = r"
  by (cases r) simp_all

lemma withCache_rejects_cached:
  assumes "loadConfigurationFileInnerWithCache this os path {} rig s = (Rejects e, visited', s')"
  shows "configPromiseCache s' path = Some (Rejected e)"
proof (cases "configPromiseCache s path")
  case None
  with assms show ?thesis
    by (auto simp: withCache_miss split: prod.splits)
next
  case (Some entry)
  with assms show ?thesis
    by (cases entry) (auto simp: withCache_hit)
qed

text \<open>
  Claim C5, as amended. A promise stays in the cache however it settles. When a top-level load
  is rejected, the entry of its path is the rejected promise, and every later top-level load
  that resolves to the same path, whatever the files, the project folder and the rig then are,
  is rejected with the same error and leaves the state as it is: no file is read.
\<close>

theorem C5_failure_stays_cached:
  assumes failed: "loadConfigurationFileForProject this os projectPath rig s = (Rejects e, s')"
  shows "configPromiseCache s' (getConfigurationFilePathForProject this os projectPath) = Some (Rejected e)
       \<and> (\<forall>laterFiles laterProject laterRig.
             getConfigurationFilePathForProject this laterFiles laterProject
               = getConfigurationFilePathForProject this os projectPath
             \<longrightarrow> loadConfigurationFileForProject this laterFiles laterProject laterRig s' = (Rejects e, s'))"
proof -
  let ?P = "getConfigurationFilePathForProject this os projectPath"
  from failed obtain visited' where
    "loadConfigurationFileInnerWithCache this os ?P {} rig s = (Rejects e, visited', s')"
    by (auto simp: loadConfigurationFileForProject_def split: prod.splits)
  from withCache_rejects_cached[OF this] have c: "configPromiseCache s' ?P = Some (Rejected e)" .
  then have "loadConfigurationFileForProject this laterFiles laterProject laterRig s' = (Rejects e, s')"
    if "getConfigurationFilePathForProject this laterFiles laterProject = ?P"
    for laterFiles laterProject laterRig
    using that by (simp add: loadConfigurationFileForProject_def withCache_hit)
  with c show ?thesis by blast
qed


theorem C5_failure_stays_cached_witness:
  "loadConfigurationFileForProject plainConfig emptyDisk ''/p'' None newLoaderState
     = (Rejects (NotExist ''/p/a.json''), failedOnce)
   \<and> getConfigurationFilePathForProject plainConfig namedDisk ''/p''
     = getConfigurationFilePathForProject plainConfig emptyDisk ''/p''
   \<and> loadConfigurationFileForProject plainConfig namedDisk ''/p'' None failedOnce
     = (Rejects (NotExist ''/p/a.json''), failedOnce)"
proof -
  have failed: "loadConfigurationFileForProject plainConfig emptyDisk ''/p'' None newLoaderState
     = (Rejects (NotExist ''/p/a.json''), failedOnce)"
    by (simp add: loadConfigurationFileForProject_def getConfigurationFilePathForProject_def
        plainConfig_def emptyDisk_def diskOf_def joinPath_def newLoaderState_def failedOnce_def
        withCache_miss loadConfigurationFileInner.simps readFileAsync_def Let_def)
  have same: "getConfigurationFilePathForProject plainConfig namedDisk ''/p''
     = getConfigurationFilePathForProject plainConfig emptyDisk ''/p''"
    by (simp add: getConfigurationFilePathForProject_def namedDisk_def emptyDisk_def diskOf_def)
  from C5_failure_stays_cached[OF failed] same
  have "loadConfigurationFileForProject plainConfig namedDisk ''/p'' None failedOnce
     = (Rejects (NotExist ''/p/a.json''), failedOnce)"
    by blast
  with failed same show ?thesis by simp
qed

text \<open>
  Claim C5 as stated fails: after a load of a missing file has been rejected, a second load of
  the same path adds nothing to the log of reads, and it is rejected in the same way even when
  the file exists by then.
\<close>

theorem C5_no_second_read_counterexample:
  "fst (loadConfigurationFileForProject plainConfig emptyDisk ''/p'' None newLoaderState)
     = Rejects (NotExist ''/p/a.json'')
   \<and> readLog (snd (loadConfigurationFileForProject plainConfig emptyDisk ''/p'' None newLoaderState))
     = [''/p/a.json'']
   \<and> readLog (snd (loadConfigurationFileForProject plainConfig emptyDisk ''/p'' None
        (snd (loadConfigurationFileForProject plainConfig emptyDisk ''/p'' None newLoaderState))))
     = [''/p/a.json'']
   \<and> fst (loadConfigurationFileForProject plainConfig namedDisk ''/p'' None
        (snd (loadConfigurationFileForProject plainConfig emptyDisk ''/p'' None newLoaderState)))
     = Rejects (NotExist ''/p/a.json'')
   \<and> readLog (snd (loadConfigurationFileForProject plainConfig namedDisk ''/p'' None
        (snd (loadConfigurationFileForProject plainConfig emptyDisk ''/p'' None newLoaderState))))
     = [''/p/a.json'']"
  by code_simp

lemma inner_missing_with_rig:
  assumes "readFileAsync os path = Inl e" and "isNotExistError e"
  shows "loadConfigurationFileInner this os path visited (Some rigConfig) s =
           (case tryLoadConfigurationFileInRig this os rigConfig visited (s\<lparr>readLog := readLog s @ [path]\<rparr>) of
              (Fulfills rigResult, visited', s2) \<Rightarrow>
                if truthy rigResult then (Fulfills rigResult, visited', s2)
                else (Rejects (NotExist path), visited', s2)
            | (Rejects e', visited', s2) \<Rightarrow> (Rejects e', visited', s2)
            | (NeverSettles, visited', s2) \<Rightarrow> (NeverSettles, visited', s2))"
  using assms by (subst loadConfigurationFileInner.simps) (simp add: Let_def)

lemma inner_missing_without_rig:
  assumes "readFileAsync os path = Inl e" and "isNotExistError e"
  shows "loadConfigurationFileInner this os path visited None s =
           (Rejects (NotExist path), visited, s\<lparr>readLog := readLog s @ [path]\<rparr>)"
  using assms by (subst loadConfigurationFileInner.simps) (simp add: Let_def)

lemma inner_unreadable:
  assumes "readFileAsync os path = Inl e" and "\<not> isNotExistError e"
  shows "loadConfigurationFileInner this os path visited rig s =
           (Rejects e, visited, s\<lparr>readLog := readLog s @ [path]\<rparr>)"
  using assms by (subst loadConfigurationFileInner.simps) (simp add: Let_def)

lemma rig_found:
  assumes "rigFound rigConfig" and "resolvedProfileFolder rigConfig = Inr folder"
  shows "tryLoadConfigurationFileInRig this os rigConfig visited s =
           (case loadConfigurationFileInnerWithCache this os
                   (pathResolve os folder (projectRelativeFilePath this)) visited None s of
              (Rejects e, visited', s') \<Rightarrow>
                if \<not> isNotExistError e then (Rejects e, visited', s')
                else (Fulfills JUndefined, visited', s')
            | (Fulfills v, visited', s') \<Rightarrow> (Fulfills v, visited', s')
            | (NeverSettles, visited', s') \<Rightarrow> (NeverSettles, visited', s'))"
  using assms by (subst tryLoadConfigurationFileInRig.simps) simp

text \<open>
  Claim C4, as amended. When the primary path has no cache entry, reading it fails with a
  "does not exist" error, and the rig is found with a resolved profile folder, the top-level
  load continues with \<open>resolve(profileFolder, projectRelativeFilePath)\<close>, loaded through the
  cache without a rig, with the visited set of the primary attempt, which at that point
  holds the primary path: a fulfilled truthy result is the result, a fulfilled falsy result or a
  "does not exist" rejection gives the "does not exist" rejection of the primary path, and any
  other rejection is passed on.
\<close>

theorem C4_fallback_shares_visited_set:
  assumes uncached: "configPromiseCache s (getConfigurationFilePathForProject this os projectPath) = None"
    and missing: "readFileAsync os (getConfigurationFilePathForProject this os projectPath) = Inl e"
                 "isNotExistError e"
    and available: "rigFound rigConfig" "resolvedProfileFolder rigConfig = Inr fallbackBaseFolder"
  shows "fst (loadConfigurationFileForProject this os projectPath (Some rigConfig) s) =
           (case fst (loadConfigurationFileInnerWithCache this os
                        (pathResolve os fallbackBaseFolder (projectRelativeFilePath this))
                        {getConfigurationFilePathForProject this os projectPath}
                        None
                        (s\<lparr>configPromiseCache := (configPromiseCache s)
                                (getConfigurationFilePathForProject this os projectPath \<mapsto> Pending),
                            readLog := readLog s @ [getConfigurationFilePathForProject this os projectPath]\<rparr>)) of
              Fulfills rigResult \<Rightarrow>
                if truthy rigResult then Fulfills rigResult
                else Rejects (NotExist (getConfigurationFilePathForProject this os projectPath))
            | Rejects e' \<Rightarrow>
                if isNotExistError e'
                then Rejects (NotExist (getConfigurationFilePathForProject this os projectPath))
                else Rejects e'
            | NeverSettles \<Rightarrow> NeverSettles)"
proof -
  let ?P = "getConfigurationFilePathForProject this os projectPath"
  let ?s0 = "s\<lparr>configPromiseCache := (configPromiseCache s)(?P \<mapsto> Pending)\<rparr>"
  let ?s1 = "s\<lparr>configPromiseCache := (configPromiseCache s)(?P \<mapsto> Pending), readLog := readLog s @ [?P]\<rparr>"
  let ?R = "pathResolve os fallbackBaseFolder (projectRelativeFilePath this)"
  obtain out vis s2 where cand: "loadConfigurationFileInnerWithCache this os ?R {?P} None ?s1 = (out, vis, s2)"
    by (cases "loadConfigurationFileInnerWithCache this os ?R {?P} None ?s1") auto
  have s1: "?s0\<lparr>readLog := readLog ?s0 @ [?P]\<rparr> = ?s1"
    by simp
  have rig: "tryLoadConfigurationFileInRig this os rigConfig {?P} ?s1 =
               (case out of
                  Rejects e' \<Rightarrow> if \<not> isNotExistError e' then (Rejects e', vis, s2)
                                else (Fulfills JUndefined, vis, s2)
                | Fulfills v \<Rightarrow> (Fulfills v, vis, s2)
                | NeverSettles \<Rightarrow> (NeverSettles, vis, s2))"
    by (simp add: rig_found[OF available] cand split: outcome.splits)
  have inner: "fst (loadConfigurationFileInner this os ?P {?P} (Some rigConfig) ?s0) =
                 (case out of
                    Fulfills v \<Rightarrow> if truthy v then Fulfills v else Rejects (NotExist ?P)
                  | Rejects e' \<Rightarrow> if isNotExistError e' then Rejects (NotExist ?P) else Rejects e'
                  | NeverSettles \<Rightarrow> NeverSettles)"
    by (simp only: inner_missing_with_rig[OF missing] s1 rig) (simp split: outcome.splits)
  have "fst (loadConfigurationFileForProject this os projectPath (Some rigConfig) s)
          = fst (loadConfigurationFileInner this os ?P {?P} (Some rigConfig) ?s0)"
    using uncached
    by (simp add: loadConfigurationFileForProject_def withCache_miss split: prod.splits)
  with inner cand show ?thesis by simp
qed


theorem C4_fallback_shares_visited_set_witness:
  "configPromiseCache newLoaderState (getConfigurationFilePathForProject plainConfig rigNamedDisk ''/p'') = None
   \<and> readFileAsync rigNamedDisk (getConfigurationFilePathForProject plainConfig rigNamedDisk ''/p'')
       = Inl (NotExist ''/p/a.json'')
   \<and> isNotExistError (NotExist ''/p/a.json'')
   \<and> rigFound rigAt \<and> resolvedProfileFolder rigAt = Inr ''/rig''
   \<and> fst (loadConfigurationFileForProject plainConfig rigNamedDisk ''/p'' (Some rigAt) newLoaderState)
       = Fulfills (JObj [(''name'', JStr ''x'')] (Some (Some ''/rig/a.json'', [(''name'', JStr ''x'')])))"
proof -
  have uncached: "configPromiseCache newLoaderState
                    (getConfigurationFilePathForProject plainConfig rigNamedDisk ''/p'') = None"
    by (simp add: newLoaderState_def)
  have missing: "readFileAsync rigNamedDisk (getConfigurationFilePathForProject plainConfig rigNamedDisk ''/p'')
                   = Inl (NotExist ''/p/a.json'')"
    by code_simp
  have ne: "isNotExistError (NotExist ''/p/a.json'')" by simp
  have found: "rigFound rigAt" and folder: "resolvedProfileFolder rigAt = Inr ''/rig''"
    by (simp_all add: rigAt_def)
  have cand: "fst (loadConfigurationFileInnerWithCache plainConfig rigNamedDisk
                     (pathResolve rigNamedDisk ''/rig'' (projectRelativeFilePath plainConfig))
                     {getConfigurationFilePathForProject plainConfig rigNamedDisk ''/p''}
                     None
                     (newLoaderState\<lparr>configPromiseCache := (configPromiseCache newLoaderState)
                          (getConfigurationFilePathForProject plainConfig rigNamedDisk ''/p'' \<mapsto> Pending),
                        readLog := readLog newLoaderState
                          @ [getConfigurationFilePathForProject plainConfig rigNamedDisk ''/p'']\<rparr>))
              = Fulfills (JObj [(''name'', JStr ''x'')] (Some (Some ''/rig/a.json'', [(''name'', JStr ''x'')])))"
    by code_simp
  from C4_fallback_shares_visited_set[OF uncached missing ne found folder] cand
  have "fst (loadConfigurationFileForProject plainConfig rigNamedDisk ''/p'' (Some rigAt) newLoaderState)
       = Fulfills (JObj [(''name'', JStr ''x'')] (Some (Some ''/rig/a.json'', [(''name'', JStr ''x'')])))"
    by simp
  with uncached missing ne found folder show ?thesis by blast
qed

text \<open>
  Claim C4 as stated fails: the visited set is shared. With a missing primary file and a rig
  file whose \<open>extends\<close> names the primary path, the load is rejected with a loop at the
  primary path, which the rig's chain can only know from the shared set; the same fallback
  started with an empty set would await the primary path's own pending promise.
\<close>

theorem C4_fresh_set_counterexample:
  "fst (loadConfigurationFileForProject plainConfig rigLoopDisk ''/p'' (Some rigAt) newLoaderState)
     = Rejects (LoopDetected ''/p/a.json'')
   \<and> fst (tryLoadConfigurationFileInRig plainConfig rigLoopDisk rigAt {''/p/a.json''} primaryPending)
     = Rejects (LoopDetected ''/p/a.json'')
   \<and> fst (tryLoadConfigurationFileInRig plainConfig rigLoopDisk rigAt {} primaryPending)
     = NeverSettles"
  by code_simp

lemma chainInvariant_readLog [simp]:
  "chainInvariant visited (s\<lparr>readLog := l\<rparr>) = chainInvariant visited s"
  by (simp add: chainInvariant_def)

lemma settlesQuietly_readLog [simp]:
  "settlesQuietly (s\<lparr>readLog := l\<rparr>) r = settlesQuietly s r"
  by (simp add: settlesQuietly_def)

lemma settlesQuietly_now [simp]:
  "settlesQuietly s (out, v, s\<lparr>readLog := l\<rparr>) = (out \<noteq> NeverSettles)"
  "settlesQuietly s (out, v, s) = (out \<noteq> NeverSettles)"
  by (simp_all add: settlesQuietly_def)

lemma chainInvariant_mark:
  "chainInvariant visited s \<Longrightarrow>
   chainInvariant (insert path visited) (s\<lparr>configPromiseCache := (configPromiseCache s)(path \<mapsto> Pending)\<rparr>)"
  by (auto simp: chainInvariant_def)

lemma chainInvariant_await:
  "chainInvariant visited s \<Longrightarrow> configPromiseCache s path = Some entry \<Longrightarrow> path \<notin> visited
    \<Longrightarrow> await entry \<noteq> NeverSettles"
  by (cases entry) (auto simp: chainInvariant_def)

lemma chainInvariant_cached:
  "chainInvariant visited s \<Longrightarrow> path \<in> visited \<Longrightarrow> configPromiseCache s path \<noteq> None"
  by (auto simp: chainInvariant_def)

lemma settlesQuietly_settle:
  assumes "settlesQuietly (s\<lparr>configPromiseCache := (configPromiseCache s)(path \<mapsto> Pending)\<rparr>) (out, v, s2)"
    and "configPromiseCache s path = None"
  shows "settlesQuietly s (out, v, s2\<lparr>configPromiseCache := (configPromiseCache s2)(path \<mapsto> settle out)\<rparr>)"
  using assms by (cases out) (auto simp: settlesQuietly_def)

lemma settlesQuietly_map:
  "settlesQuietly s (out, v, s2) \<Longrightarrow> out' \<noteq> NeverSettles \<Longrightarrow> settlesQuietly s (out', v, s2)"
  by (simp add: settlesQuietly_def)

lemma mergeAndValidate_settles [simp]: "mergeAndValidate this p c path \<noteq> NeverSettles"
  by (simp add: mergeAndValidate_def split: sum.splits)

lemma loader_settles_quietly:
  "chainInvariant visited s \<Longrightarrow> settlesQuietly s (loadConfigurationFileInnerWithCache this os path visited rig s)"
  "chainInvariant visited s \<Longrightarrow> settlesQuietly s (loadConfigurationFileInner this os path visited rig s)"
  "chainInvariant visited s \<Longrightarrow> settlesQuietly s (tryLoadConfigurationFileInRig this os rigConfig visited s)"
proof (induction this os path visited rig s and this os path visited rig s and this os rigConfig visited s
       rule: loadConfigurationFileInnerWithCache_loadConfigurationFileInner_tryLoadConfigurationFileInRig.induct)
  case (1 this os path visited rig s)
  show ?case
  proof (cases "configPromiseCache s path")
    case (Some entry)
    with "1.prems" show ?thesis
      by (auto simp: withCache_hit dest: chainInvariant_await)
  next
    case None
    with "1.prems" have False: "path \<notin> visited" by (auto dest: chainInvariant_cached)
    let ?s1 = "s\<lparr>configPromiseCache := (configPromiseCache s)(path \<mapsto> Pending)\<rparr>"
    from "1.IH"[OF None refl False chainInvariant_mark[OF "1.prems"]]
    have inner: "settlesQuietly ?s1 (loadConfigurationFileInner this os path (insert path visited) rig ?s1)" .
    obtain out v s2 where r: "loadConfigurationFileInner this os path (insert path visited) rig ?s1 = (out, v, s2)"
      by (cases "loadConfigurationFileInner this os path (insert path visited) rig ?s1") auto
    from settlesQuietly_settle[OF inner[unfolded r] None] None False r show ?thesis
      by (simp add: withCache_miss)
  qed
next
  case (2 this os path visited rig s)
  let ?s1 = "s\<lparr>readLog := readLog s @ [path]\<rparr>"
  have inv: "chainInvariant visited ?s1" using "2.prems" by simp
  show ?case
  proof (cases "readFileAsync os path")
    case (Inl e)
    show ?thesis
    proof (cases "isNotExistError e")
      case False
      with Inl show ?thesis by (simp add: inner_unreadable)
    next
      case True
      show ?thesis
      proof (cases rig)
        case None
        with Inl True show ?thesis by (simp add: inner_missing_without_rig)
      next
        case (Some rigConfig)
        from "2.IH"(1)[OF refl Inl True Some inv]
        have q: "settlesQuietly s (tryLoadConfigurationFileInRig this os rigConfig visited ?s1)" by simp
        obtain out v s2 where r: "tryLoadConfigurationFileInRig this os rigConfig visited ?s1 = (out, v, s2)"
          by (cases "tryLoadConfigurationFileInRig this os rigConfig visited ?s1") auto
        from q r have "out \<noteq> NeverSettles" by (simp add: settlesQuietly_def)
        with q r Inl True Some show ?thesis
          by (cases out) (auto simp: inner_missing_with_rig intro: settlesQuietly_map)
      qed
    qed
  next
    case (Inr fileText)
    show ?thesis
    proof (cases "parseString fileText")
      case (Inl msg)
      with Inr show ?thesis
        by (subst loadConfigurationFileInner.simps) (simp add: Let_def)
    next
      case parsed: (Inr json)
      show ?thesis
      proof (cases "applyJsonPathMetadata this path (annotateProperties path json)")
        case (Inl e)
        with Inr parsed show ?thesis
          by (subst loadConfigurationFileInner.simps) (simp add: Let_def)
      next
        case rewritten: (Inr configurationJson)
        show ?thesis
        proof (cases "\<not> (configurationJson = JNull \<or> configurationJson = JUndefined)
                       \<and> truthy (getProp configurationJson ''extends'')")
          case False
          with Inr parsed rewritten show ?thesis
            by (subst loadConfigurationFileInner.simps) (auto simp: Let_def)
        next
          case True
          show ?thesis
          proof (cases "resolveModule os (getProp configurationJson ''extends'') (pathDirname os path)")
            case (Inl e)
            with Inr parsed rewritten True show ?thesis
              by (subst loadConfigurationFileInner.simps) (auto simp: Let_def)
          next
            case resolved: (Inr parentPath)
            from True have nn: "\<not> (configurationJson = JNull \<or> configurationJson = JUndefined)"
              and ext: "truthy (getProp configurationJson ''extends'')" by simp_all
            from "2.IH"(2)[OF refl Inr parsed rewritten nn ext resolved inv]
            have q: "settlesQuietly s (loadConfigurationFileInnerWithCache this os parentPath visited None ?s1)"
              by simp
            obtain out v s2 where
              r: "loadConfigurationFileInnerWithCache this os parentPath visited None ?s1 = (out, v, s2)"
              by (cases "loadConfigurationFileInnerWithCache this os parentPath visited None ?s1") auto
            from q r have "out \<noteq> NeverSettles" by (simp add: settlesQuietly_def)
            with q r Inr parsed rewritten True resolved show ?thesis
              by (subst loadConfigurationFileInner.simps)
                 (cases out; auto simp: Let_def intro: settlesQuietly_map)
          qed
        qed
      qed
    qed
  qed
next
  case (3 this os rigConfig visited s)
  show ?case
  proof (cases "rigFound rigConfig")
    case False
    then show ?thesis
      by (subst tryLoadConfigurationFileInRig.simps) simp
  next
    case True
    show ?thesis
    proof (cases "resolvedProfileFolder rigConfig")
      case (Inl e)
      with True show ?thesis
        by (subst tryLoadConfigurationFileInRig.simps) simp
    next
      case (Inr folder)
      let ?R = "pathResolve os folder (projectRelativeFilePath this)"
      from "3.IH"[OF True Inr "3.prems"]
      have q: "settlesQuietly s (loadConfigurationFileInnerWithCache this os ?R visited None s)" .
      obtain out v s2 where r: "loadConfigurationFileInnerWithCache this os ?R visited None s = (out, v, s2)"
        by (cases "loadConfigurationFileInnerWithCache this os ?R visited None s") auto
      from q r have "out \<noteq> NeverSettles" by (simp add: settlesQuietly_def)
      with q r True Inr show ?thesis
        by (cases out) (auto simp: rig_found intro: settlesQuietly_map)
    qed
  qed
qed


lemma extendsTarget_SomeD:
  assumes "extendsTarget this os path = Some parent"
  obtains fileText json configurationJson where
    "readFileAsync os path = Inr fileText"
    "parseString fileText = Inr json"
    "applyJsonPathMetadata this path (annotateProperties path json) = Inr configurationJson"
    "configurationJson \<noteq> JNull" "configurationJson \<noteq> JUndefined"
    "truthy (getProp configurationJson ''extends'')"
    "resolveModule os (getProp configurationJson ''extends'') (pathDirname os path) = Inr parent"
  using assms by (auto simp: extendsTarget_def split: sum.splits if_splits)

lemma inner_with_parent:
  assumes "readFileAsync os path = Inr fileText"
    "parseString fileText = Inr json"
    "applyJsonPathMetadata this path (annotateProperties path json) = Inr configurationJson"
    "configurationJson \<noteq> JNull" "configurationJson \<noteq> JUndefined"
    "truthy (getProp configurationJson ''extends'')"
    "resolveModule os (getProp configurationJson ''extends'') (pathDirname os path) = Inr parent"
  shows "loadConfigurationFileInner this os path visited rig s =
           (case loadConfigurationFileInnerWithCache this os parent visited None
                   (s\<lparr>readLog := readLog s @ [path]\<rparr>) of
              (Fulfills parentConfiguration, visited', s2) \<Rightarrow>
                (mergeAndValidate this parentConfiguration configurationJson path, visited', s2)
            | (Rejects e, visited', s2) \<Rightarrow>
                (Rejects (wrapExtendsError path (getProp configurationJson ''extends'') e), visited', s2)
            | (NeverSettles, visited', s2) \<Rightarrow> (NeverSettles, visited', s2))"
  using assms by (subst loadConfigurationFileInner.simps) (simp add: Let_def)

lemma inner_parent_rejects:
  assumes t: "extendsTarget this os path = Some parent"
    and r: "fst (loadConfigurationFileInnerWithCache this os parent visited None
                   (s\<lparr>readLog := readLog s @ [path]\<rparr>)) = Rejects e"
    and n: "\<not> isNotExistError e"
  shows "fst (loadConfigurationFileInner this os path visited rig s) = Rejects e"
proof -
  from t obtain fileText json configurationJson where f:
    "readFileAsync os path = Inr fileText"
    "parseString fileText = Inr json"
    "applyJsonPathMetadata this path (annotateProperties path json) = Inr configurationJson"
    "configurationJson \<noteq> JNull" "configurationJson \<noteq> JUndefined"
    "truthy (getProp configurationJson ''extends'')"
    "resolveModule os (getProp configurationJson ''extends'') (pathDirname os path) = Inr parent"
    by (rule extendsTarget_SomeD)
  obtain out v s2 where
    l: "loadConfigurationFileInnerWithCache this os parent visited None (s\<lparr>readLog := readLog s @ [path]\<rparr>)
          = (out, v, s2)"
    by (cases "loadConfigurationFileInnerWithCache this os parent visited None
                 (s\<lparr>readLog := readLog s @ [path]\<rparr>)") auto
  with r have "out = Rejects e" by simp
  with l n show ?thesis
    by (simp add: inner_with_parent[OF f] wrapExtendsError_def)
qed

lemma withCache_miss_fst:
  "configPromiseCache s path = None \<Longrightarrow> path \<notin> visited \<Longrightarrow>
   fst (loadConfigurationFileInnerWithCache this os path visited rig s) =
   fst (loadConfigurationFileInner this os path (insert path visited) rig
          (s\<lparr>configPromiseCache := (configPromiseCache s)(path \<mapsto> Pending)\<rparr>))"
  by (simp add: withCache_miss split: prod.splits)

lemma chain_revisit_detected:
  assumes "extendsChain this os (chain @ [revisited])" and "chain \<noteq> []" and "distinct chain"
    and "\<forall>x\<in>set chain. configPromiseCache s x = None \<and> x \<notin> visited"
    and "revisited \<in> set chain \<union> visited"
  shows "fst (loadConfigurationFileInnerWithCache this os (hd chain) visited rig s)
           = Rejects (LoopDetected revisited)"
  using assms
proof (induction chain arbitrary: visited rig s)
  case Nil
  then show ?case by simp
next
  case (Cons x rest)
  let ?s0 = "s\<lparr>configPromiseCache := (configPromiseCache s)(x \<mapsto> Pending)\<rparr>"
  let ?s1 = "?s0\<lparr>readLog := readLog ?s0 @ [x]\<rparr>"
  from Cons.prems have miss: "configPromiseCache s x = None" and fresh: "x \<notin> visited" by simp_all
  have parent: "\<exists>y. extendsTarget this os x = Some y
                  \<and> fst (loadConfigurationFileInnerWithCache this os y (insert x visited) None ?s1)
                      = Rejects (LoopDetected revisited)"
  proof (cases rest)
    case Nil
    with Cons.prems have t: "extendsTarget this os x = Some revisited"
      and v: "revisited \<in> insert x visited" by auto
    from withCache_visited[OF v] t show ?thesis by blast
  next
    case (Cons y more)
    with Cons.prems have t: "extendsTarget this os x = Some y"
      and c: "extendsChain this os (rest @ [revisited])" by auto
    from Cons.prems(3,4) Cons have
      "\<forall>w\<in>set rest. configPromiseCache ?s1 w = None \<and> w \<notin> insert x visited" by auto
    moreover from Cons.prems(5) have "revisited \<in> set rest \<union> insert x visited" by auto
    moreover from Cons.prems(3) have "distinct rest" by simp
    moreover from Cons have "rest \<noteq> []" by simp
    ultimately have "fst (loadConfigurationFileInnerWithCache this os (hd rest) (insert x visited) None ?s1)
                       = Rejects (LoopDetected revisited)"
      using c by (intro Cons.IH)
    with Cons t show ?thesis by simp
  qed
  then obtain y where t: "extendsTarget this os x = Some y"
    and r: "fst (loadConfigurationFileInnerWithCache this os y (insert x visited) None ?s1)
              = Rejects (LoopDetected revisited)"
    by blast
  have "fst (loadConfigurationFileInner this os x (insert x visited) rig ?s0) = Rejects (LoopDetected revisited)"
    using t r by (rule inner_parent_rejects) simp
  with miss fresh show ?case by (simp add: withCache_miss_fst)
qed

lemma forProject_fst:
  "fst (loadConfigurationFileForProject this os projectPath rig s) =
   fst (loadConfigurationFileInnerWithCache this os
          (getConfigurationFilePathForProject this os projectPath) {} rig s)"
  by (simp add: loadConfigurationFileForProject_def split: prod.splits)

lemma forProject_snd:
  "snd (loadConfigurationFileForProject this os projectPath rig s) =
   snd (snd (loadConfigurationFileInnerWithCache this os
          (getConfigurationFilePathForProject this os projectPath) {} rig s))"
  by (simp add: loadConfigurationFileForProject_def split: prod.splits)

lemma withCache_visited_cached:
  "path \<in> visited \<Longrightarrow>
   configPromiseCache (snd (snd (loadConfigurationFileInnerWithCache this os path visited rig s))) path \<noteq> None"
  by (cases "configPromiseCache s path") (simp_all add: withCache_hit withCache_miss)

text \<open>
  One top-level load on its own. A load through the cache of a path that is already visited is
  rejected with \<open>LoopDetected\<close> naming that path, whatever the cache holds for it, a pending
  promise included, and the path has a cache entry afterwards, so the check comes after the
  caching and before the await. For a top-level load whose chain of \<open>extends\<close> references,
  through paths that have no cache entry yet, leads back to a path of the chain, the load is
  rejected with \<open>LoopDetected\<close> naming the path that is reached again. A top-level load
  started in a quiescent state settles, and it ends in a quiescent state.
\<close>

lemma isolated_load_detects_cycle:
  "(path \<in> visited
      \<longrightarrow> fst (loadConfigurationFileInnerWithCache this os path visited rig s) = Rejects (LoopDetected path)
        \<and> configPromiseCache (snd (snd (loadConfigurationFileInnerWithCache this os path visited rig s))) path
            \<noteq> None)
   \<and> (extendsChain this os (chain @ [revisited]) \<and> chain \<noteq> [] \<and> distinct chain
        \<and> hd chain = getConfigurationFilePathForProject this os projectPath
        \<and> (\<forall>x\<in>set chain. configPromiseCache s x = None)
        \<and> revisited \<in> set chain
      \<longrightarrow> fst (loadConfigurationFileForProject this os projectPath rig s) = Rejects (LoopDetected revisited))
   \<and> (quiescent s
      \<longrightarrow> fst (loadConfigurationFileForProject this os projectPath rig s) \<noteq> NeverSettles
        \<and> quiescent (snd (loadConfigurationFileForProject this os projectPath rig s)))"
proof (intro conjI impI)
  assume "path \<in> visited"
  then show "fst (loadConfigurationFileInnerWithCache this os path visited rig s) = Rejects (LoopDetected path)"
    by (rule withCache_visited)
next
  assume "path \<in> visited"
  then show "configPromiseCache (snd (snd (loadConfigurationFileInnerWithCache this os path visited rig s))) path
               \<noteq> None"
    by (rule withCache_visited_cached)
next
  assume a: "extendsChain this os (chain @ [revisited]) \<and> chain \<noteq> [] \<and> distinct chain
        \<and> hd chain = getConfigurationFilePathForProject this os projectPath
        \<and> (\<forall>x\<in>set chain. configPromiseCache s x = None)
        \<and> revisited \<in> set chain"
  then have "fst (loadConfigurationFileInnerWithCache this os (hd chain) {} rig s)
               = Rejects (LoopDetected revisited)"
    by (intro chain_revisit_detected) auto
  with a show "fst (loadConfigurationFileForProject this os projectPath rig s) = Rejects (LoopDetected revisited)"
    by (simp add: forProject_fst)
next
  assume q: "quiescent s"
  then have "chainInvariant {} s" by (simp add: chainInvariant_def quiescent_def)
  from loader_settles_quietly(1)[OF this]
  have sq: "settlesQuietly s (loadConfigurationFileInnerWithCache this os
              (getConfigurationFilePathForProject this os projectPath) {} rig s)" .
  then show "fst (loadConfigurationFileForProject this os projectPath rig s) \<noteq> NeverSettles"
    by (simp add: forProject_fst settlesQuietly_def)
  from sq q show "quiescent (snd (loadConfigurationFileForProject this os projectPath rig s))"
    by (simp add: forProject_snd settlesQuietly_def quiescent_def)
qed

lemma isolated_load_detects_cycle_example:
  "''/p/a.json'' \<in> {''/p/a.json''}
   \<and> configPromiseCache primaryPending ''/p/a.json'' = Some Pending
   \<and> fst (loadConfigurationFileInnerWithCache plainConfig cyclicDisk ''/p/a.json'' {''/p/a.json''} None
            primaryPending) = Rejects (LoopDetected ''/p/a.json'')
   \<and> extendsChain plainConfig cyclicDisk ([''/p/a.json'', ''/p/b.json''] @ [''/p/a.json''])
   \<and> hd [''/p/a.json'', ''/p/b.json''] = getConfigurationFilePathForProject plainConfig cyclicDisk ''/p''
   \<and> quiescent newLoaderState
   \<and> fst (loadConfigurationFileForProject plainConfig cyclicDisk ''/p'' None newLoaderState)
       = Rejects (LoopDetected ''/p/a.json'')
   \<and> quiescent (snd (loadConfigurationFileForProject plainConfig cyclicDisk ''/p'' None newLoaderState))"
proof -
  have v: "''/p/a.json'' \<in> {''/p/a.json''}" by simp
  have pend: "configPromiseCache primaryPending ''/p/a.json'' = Some Pending"
    by (simp add: primaryPending_def)
  have chain: "extendsChain plainConfig cyclicDisk ([''/p/a.json'', ''/p/b.json''] @ [''/p/a.json''])"
    by code_simp
  have start: "hd [''/p/a.json'', ''/p/b.json''] = getConfigurationFilePathForProject plainConfig cyclicDisk ''/p''"
    by code_simp
  have fresh: "\<forall>x\<in>set [''/p/a.json'', ''/p/b.json'']. configPromiseCache newLoaderState x = None"
    by (simp add: newLoaderState_def)
  have q: "quiescent newLoaderState"
    by (simp add: quiescent_def newLoaderState_def)
  note immediate = isolated_load_detects_cycle[of "''/p/a.json''" "{''/p/a.json''}" plainConfig cyclicDisk
      None primaryPending "[]" "[]" "''/p''"]
  note whole = isolated_load_detects_cycle[of "''/p/a.json''" "{}" plainConfig cyclicDisk
      None newLoaderState "[''/p/a.json'', ''/p/b.json'']" "''/p/a.json''" "''/p''"]
  from immediate v have i: "fst (loadConfigurationFileInnerWithCache plainConfig cyclicDisk ''/p/a.json''
            {''/p/a.json''} None primaryPending) = Rejects (LoopDetected ''/p/a.json'')"
    by blast
  from whole chain start fresh
  have l: "fst (loadConfigurationFileForProject plainConfig cyclicDisk ''/p'' None newLoaderState)
       = Rejects (LoopDetected ''/p/a.json'')"
    by simp
  from whole q
  have e: "quiescent (snd (loadConfigurationFileForProject plainConfig cyclicDisk ''/p'' None newLoaderState))"
    by blast
  from v pend i chain start q l e show ?thesis by blast
qed

text \<open>
  Claim C1. A top-level load that runs on its own behaves as claimed, as
  \<open>isolated_load_detects_cycle\<close> shows. Two top-level loads that are under way at once do
  not: each has a visited set of its own, a pending promise cached by the other load is not in
  it, and so that promise is awaited. Let \<^verbatim>\<open>/p/a.json\<close> extend \<^verbatim>\<open>/q/a.json\<close> and
  \<^verbatim>\<open>/q/a.json\<close> extend \<^verbatim>\<open>/p/a.json\<close>. The load of project \<^verbatim>\<open>/p\<close> alone is rejected
  with \<open>LoopDetected\<close>. Started while the load of project \<^verbatim>\<open>/q\<close> is under way, with its
  promise cached and pending, it never settles. And once both loads have cached their promises,
  the body of each, which reads its file and follows \<open>extends\<close>, awaits the promise of the
  other: neither promise is ever settled and no error is reported.
\<close>

theorem C1_overlapping_loads_never_settle:
  "extendsChain plainConfig crossDisk [''/p/a.json'', ''/q/a.json'', ''/p/a.json'']
   \<and> fst (loadConfigurationFileForProject plainConfig crossDisk ''/p'' None newLoaderState)
       = Rejects (LoopDetected ''/p/a.json'')
   \<and> fst (loadConfigurationFileForProject plainConfig crossDisk ''/p'' None otherLoadStarted) = NeverSettles
   \<and> fst (loadConfigurationFileInner plainConfig crossDisk ''/p/a.json'' {''/p/a.json''} None bothLoadsStarted)
       = NeverSettles
   \<and> fst (loadConfigurationFileInner plainConfig crossDisk ''/q/a.json'' {''/q/a.json''} None bothLoadsStarted)
       = NeverSettles"
  by code_simp

lemma directive_error_not_missing: "isMergeDirectiveError e \<Longrightarrow> \<not> isNotExistError e"
  by (cases e) simp_all

lemma combiners_empty [simp]: "combinersNeverReportMissing Map.empty"
  by (simp add: combinersNeverReportMissing_def)

lemma gather_map_plain:
  "gatherMergeBehaviors c ig names f m = Inr (f', m')
    \<Longrightarrow> \<forall>t entry. m t = Some entry \<longrightarrow> inheritanceFunction entry = None
    \<Longrightarrow> \<forall>t entry. m' t = Some entry \<longrightarrow> inheritanceFunction entry = None"
proof (induction names arbitrary: f m)
  case Nil
  then show ?case by simp
next
  case (Cons a names)
  show ?case
  proof (cases "a \<in> ig")
    case True
    with Cons.prems have "gatherMergeBehaviors c ig names f m = Inr (f', m')" by simp
    from Cons.IH[OF this Cons.prems(2)] show ?thesis .
  next
    case False
    show ?thesis
    proof (cases "mergeBehaviorTarget a")
      case None
      with False Cons.prems have "gatherMergeBehaviors c ig names (f @ [a]) m = Inr (f', m')" by simp
      from Cons.IH[OF this Cons.prems(2)] show ?thesis .
    next
      case (Some ta)
      from False Some Cons.prems(1) obtain b where
        b: "parseMergeBehavior c a ta = Inr b"
        and rest: "gatherMergeBehaviors c ig names f (m(ta \<mapsto> b)) = Inr (f', m')"
        by (auto split: sum.splits)
      from parseMergeBehavior_Inr[OF b] have "inheritanceFunction b = None" by blast
      with Cons.prems(2) have "\<forall>t entry. (m(ta \<mapsto> b)) t = Some entry \<longrightarrow> inheritanceFunction entry = None"
        by simp
      from Cons.IH[OF rest this] show ?thesis .
    qed
  qed
qed

lemma gathered_combiners:
  assumes "gatherMergeBehaviors c ig names [] Map.empty = Inr (f', m')"
  shows "combinersNeverReportMissing m'"
proof -
  from gather_map_plain[OF assms] have "\<forall>t entry. m' t = Some entry \<longrightarrow> inheritanceFunction entry = None"
    by simp
  then show ?thesis
    unfolding combinersNeverReportMissing_def by (metis option.distinct(1))
qed

lemma useValueOf_error: "useValueOf side n v = Inl e \<Longrightarrow> e = TypeError"
  by (auto simp: useValueOf_def getPropertyOriginalValue_def split: sum.splits if_splits option.splits)

lemma effective_combiner:
  assumes "combinersNeverReportMissing conf" "combinersNeverReportMissing bmap"
    and "inheritanceFunction (effectiveInheritance bmap conf v w n) = Some f" and "f a b = Inl e"
  shows "\<not> isNotExistError e"
  using assms
  by (auto simp: effectiveInheritance_def combinersNeverReportMissing_def split: option.splits if_splits)

lemma merge_error_not_missing:
  "combinersNeverReportMissing conf \<Longrightarrow> mergeObjects p c path conf ig = Inl e \<Longrightarrow> \<not> isNotExistError e"
  "combinersNeverReportMissing conf \<Longrightarrow> combinersNeverReportMissing bmap
     \<Longrightarrow> mergeProperties p c path conf bmap names props origs = Inl e \<Longrightarrow> \<not> isNotExistError e"
  "combinersNeverReportMissing conf \<Longrightarrow> combinersNeverReportMissing bmap
     \<Longrightarrow> mergeProperty p c path conf bmap n = Inl e \<Longrightarrow> \<not> isNotExistError e"
proof (induction p c path conf ig and p c path conf bmap names props origs and p c path conf bmap n
       arbitrary: e and e and e
       rule: mergeObjects_mergeProperties_mergeProperty.induct)
  case (1 parentObject currentObject path conf ig)
  show ?case
  proof (cases "gatherMergeBehaviors currentObject ig (objectKeys currentObject) [] Map.empty")
    case (Inl e')
    then have "mergeObjects parentObject currentObject path conf ig = Inl e'"
      by (rule mergeObjects_gather_Inl)
    with "1.prems" have "e' = e" by simp
    with gather_Inl[OF Inl] parseMergeBehavior_Inl directive_error_not_missing show ?thesis
      by blast
  next
    case (Inr r)
    obtain filtered bmap where r: "r = (filtered, bmap)" by (cases r)
    from Inr r have g: "gatherMergeBehaviors currentObject ig (objectKeys currentObject) [] Map.empty
                          = Inr (filtered, bmap)" by simp
    from "1.prems"(2) g have
      "mergeProperties parentObject currentObject path conf bmap
         (dedupe (objectKeys parentObject @ filtered)) [] [] = Inl e"
      by (subst (asm) mergeObjects.simps) (auto split: sum.splits)
    from "1.IH"[OF g refl "1.prems"(1) gathered_combiners[OF g] this] show ?thesis .
  qed
next
  case (2 parentObject currentObject path conf bmap names props origs)
  show ?case
  proof (cases names)
    case Nil
    with "2.prems" show ?thesis by (simp add: mergeProperties_Nil)
  next
    case (Cons m rest)
    show ?thesis
    proof (cases "mergeProperty parentObject currentObject path conf bmap m")
      case (Inl e')
      with Cons "2.prems"(3) have "e' = e" by (simp add: mergeProperties_Cons)
      with "2.IH"(1)[OF Cons "2.prems"(1,2)] Inl show ?thesis by simp
    next
      case (Inr r)
      obtain v orig where r: "r = (v, orig)" by (cases r)
      from Inr r Cons "2.prems"(3) have
        "mergeProperties parentObject currentObject path conf bmap rest (AList.update m v props)
           (case orig of None \<Rightarrow> origs | Some x \<Rightarrow> AList.update m x origs) = Inl e"
        by (simp add: mergeProperties_Cons)
      from "2.IH"(2)[OF Cons _ _ "2.prems"(1,2) this] Inr r show ?thesis by simp
    qed
  qed
next
  case (3 parentObject currentObject path conf bmap n)
  let ?pv = "getProp currentObject n" and ?ppv = "getProp parentObject n"
  let ?pi = "effectiveInheritance bmap conf ?pv ?ppv n"
  consider (child) "?pv \<noteq> JUndefined" "?ppv = JUndefined"
    | (parent) "?pv = JUndefined" "?ppv \<noteq> JUndefined"
    | (other) "\<not> (?pv \<noteq> JUndefined \<and> ?ppv = JUndefined)" "\<not> (?ppv \<noteq> JUndefined \<and> ?pv = JUndefined)"
    by blast
  then show ?case
  proof cases
    case child
    with "3.prems"(3) show ?thesis
      by (auto simp: mergeProperty_child_only dest: useValueOf_error)
  next
    case parent
    with "3.prems"(3) show ?thesis
      by (auto simp: mergeProperty_parent_only dest: useValueOf_error)
  next
    case other
    show ?thesis
    proof (cases "inheritanceType ?pi")
      case Replace
      from "3.prems"(3) mergeProperty_replace[OF Replace, of path] show ?thesis
        by (auto dest: useValueOf_error split: if_splits)
    next
      case Append
      with other "3.prems"(3) show ?thesis
        by (subst (asm) mergeProperty.simps)
           (auto simp: Let_def dest: useValueOf_error split: if_splits option.splits)
    next
      case Custom
      with other "3.prems"(3) effective_combiner[OF "3.prems"(1,2), of ?pv ?ppv n] show ?thesis
        by (subst (asm) mergeProperty.simps)
           (auto simp: Let_def split: if_splits option.splits sum.splits)
    next
      case Unrecognized
      with other "3.prems"(3) show ?thesis
        by (subst (asm) mergeProperty.simps) (auto simp: Let_def split: if_splits)
    next
      case Merge
      show ?thesis
      proof (cases "?ppv = JNull \<or> ?pv = JNull
                    \<or> (truthy ?pv \<and> \<not> typeofObject ?pv) \<or> (truthy ?ppv \<and> \<not> typeofObject ?ppv)
                    \<or> isArray ?pv \<or> isArray ?ppv")
        case True
        with Merge other "3.prems"(3) show ?thesis
          by (subst (asm) mergeProperty.simps) (auto simp: Let_def split: if_splits)
      next
        case False
        with Merge other "3.prems"(3) have
          m: "mergeObjects ?ppv ?pv path Map.empty {} = Inl e"
          by (subst (asm) mergeProperty.simps) (auto simp: Let_def split: if_splits sum.splits)
        from False other Merge have
          "\<not> (?pv \<noteq> JUndefined \<and> ?ppv = JUndefined)" "\<not> (?ppv \<noteq> JUndefined \<and> ?pv = JUndefined)"
          "inheritanceType ?pi = Merge" "\<not> (?ppv = JNull \<or> ?pv = JNull)"
          "\<not> (?pv \<noteq> JUndefined \<and> ?ppv = JUndefined)" "\<not> (?pv = JUndefined \<and> ?ppv \<noteq> JUndefined)"
          "\<not> (truthy ?pv \<and> \<not> typeofObject ?pv \<or> truthy ?ppv \<and> \<not> typeofObject ?ppv)"
          "\<not> (isArray ?pv \<or> isArray ?ppv)"
          by auto
        from "3.IH"[OF refl refl refl this combiners_empty m] show ?thesis .
      qed
    qed
  qed
qed


lemma wrapExtendsError_not_missing [simp]: "\<not> isNotExistError (wrapExtendsError path x e)"
  by (simp add: wrapExtendsError_def)

lemma mergeAndValidate_not_missing:
  "combinersNeverReportMissing (propertyInheritanceTypes this)
    \<Longrightarrow> mergeAndValidate this p c path = Rejects e \<Longrightarrow> \<not> isNotExistError e"
  by (auto simp: mergeAndValidate_def mergeConfigurationFiles_def
           split: sum.splits if_splits dest: merge_error_not_missing(1))

lemma mergeAndValidate_truthy: "mergeAndValidate this p c path = Fulfills v \<Longrightarrow> truthy v"
  by (auto simp: mergeAndValidate_def mergeConfigurationFiles_def
           split: sum.splits if_splits elim: mergeObjects_Inr)

lemma inner_unresolved:
  assumes "readFileAsync os path = Inr fileText"
    "parseString fileText = Inr json"
    "applyJsonPathMetadata this path (annotateProperties path json) = Inr configurationJson"
    "configurationJson \<noteq> JNull" "configurationJson \<noteq> JUndefined"
    "truthy (getProp configurationJson ''extends'')"
    "resolveModule os (getProp configurationJson ''extends'') (pathDirname os path) = Inl e"
  shows "loadConfigurationFileInner this os path visited rig s =
           (Rejects (wrapExtendsError path (getProp configurationJson ''extends'') e), visited,
            s\<lparr>readLog := readLog s @ [path]\<rparr>)"
  using assms by (subst loadConfigurationFileInner.simps) (simp add: Let_def)

lemma inner_readable_cases:
  assumes "readFileAsync os path = Inr fileText"
  shows "(\<exists>e. fst (loadConfigurationFileInner this os path visited rig s) = Rejects e
               \<and> (e = TypeError \<or> (\<exists>msg. e = ParseFailed path msg)
                    \<or> (\<exists>json. applyJsonPathMetadata this path json = Inl e)
                    \<or> (\<exists>x e'. e = wrapExtendsError path x e')))
       \<or> (\<exists>p c. fst (loadConfigurationFileInner this os path visited rig s) = mergeAndValidate this p c path)
       \<or> fst (loadConfigurationFileInner this os path visited rig s) = NeverSettles"
proof (cases "parseString fileText")
  case (Inl msg)
  with assms show ?thesis
    by (subst loadConfigurationFileInner.simps)+ (simp add: Let_def)
next
  case parsed: (Inr json)
  show ?thesis
  proof (cases "applyJsonPathMetadata this path (annotateProperties path json)")
    case (Inl e)
    with assms parsed have "fst (loadConfigurationFileInner this os path visited rig s) = Rejects e"
      by (subst loadConfigurationFileInner.simps) (simp add: Let_def)
    with Inl show ?thesis by blast
  next
    case rewritten: (Inr configurationJson)
    show ?thesis
    proof (cases "configurationJson = JNull \<or> configurationJson = JUndefined")
      case True
      with assms parsed rewritten
      have "fst (loadConfigurationFileInner this os path visited rig s) = Rejects TypeError"
        by (subst loadConfigurationFileInner.simps) (auto simp: Let_def)
      then show ?thesis by blast
    next
      case nn: False
      show ?thesis
      proof (cases "truthy (getProp configurationJson ''extends'')")
        case False
        with nn assms parsed rewritten
        have "fst (loadConfigurationFileInner this os path visited rig s)
                = mergeAndValidate this JUndefined configurationJson path"
          by (subst loadConfigurationFileInner.simps) (auto simp: Let_def)
        then show ?thesis by blast
      next
        case True
        from nn have n1: "configurationJson \<noteq> JNull" and n2: "configurationJson \<noteq> JUndefined" by simp_all
        show ?thesis
        proof (cases "resolveModule os (getProp configurationJson ''extends'') (pathDirname os path)")
          case (Inl e)
          from inner_unresolved[OF assms parsed rewritten n1 n2 True Inl, of visited rig s]
          show ?thesis by auto
        next
          case (Inr parent)
          note w = inner_with_parent[OF assms parsed rewritten n1 n2 True Inr, of visited rig s]
          obtain out v s2 where
            l: "loadConfigurationFileInnerWithCache this os parent visited None
                  (s\<lparr>readLog := readLog s @ [path]\<rparr>) = (out, v, s2)"
            by (cases "loadConfigurationFileInnerWithCache this os parent visited None
                         (s\<lparr>readLog := readLog s @ [path]\<rparr>)") auto
          show ?thesis
          proof (cases out)
            case NeverSettles
            with w l show ?thesis by simp
          next
            case (Rejects e')
            with w l have "fst (loadConfigurationFileInner this os path visited rig s)
                = Rejects (wrapExtendsError path (getProp configurationJson ''extends'') e')"
              by simp
            then show ?thesis by blast
          next
            case (Fulfills pc)
            with w l have "fst (loadConfigurationFileInner this os path visited rig s)
                = mergeAndValidate this pc configurationJson path"
              by simp
            then show ?thesis by blast
          qed
        qed
      qed
    qed
  qed
qed


lemma inner_readable_not_missing:
  assumes "readFileAsync os path = Inr fileText"
    and "\<forall>p json e. applyJsonPathMetadata this p json = Inl e \<longrightarrow> \<not> isNotExistError e"
    and "combinersNeverReportMissing (propertyInheritanceTypes this)"
    and "fst (loadConfigurationFileInner this os path visited rig s) = Rejects e"
  shows "\<not> isNotExistError e"
  using inner_readable_cases[OF assms(1), of this visited rig s] assms(2,4)
    mergeAndValidate_not_missing[OF assms(3)]
  by auto

lemma inner_readable_truthy:
  assumes "readFileAsync os path = Inr fileText"
    and "fst (loadConfigurationFileInner this os path visited rig s) = Fulfills v"
  shows "truthy v"
  using inner_readable_cases[OF assms(1), of this visited rig s] assms(2) mergeAndValidate_truthy
  by auto

lemma plain_load_outcome:
  assumes miss: "configPromiseCache s path = None" and fresh: "path \<notin> visited"
    and rewrite: "\<forall>p json e. applyJsonPathMetadata this p json = Inl e \<longrightarrow> \<not> isNotExistError e"
    and combine: "combinersNeverReportMissing (propertyInheritanceTypes this)"
  shows "((\<exists>e. fst (loadConfigurationFileInnerWithCache this os path visited None s) = Rejects e
               \<and> isNotExistError e)
          \<longleftrightarrow> (\<exists>e. readFileAsync os path = Inl e \<and> isNotExistError e))
       \<and> (\<forall>v. fst (loadConfigurationFileInnerWithCache this os path visited None s) = Fulfills v
              \<longrightarrow> truthy v)"
proof -
  let ?s0 = "s\<lparr>configPromiseCache := (configPromiseCache s)(path \<mapsto> Pending)\<rparr>"
  let ?o = "fst (loadConfigurationFileInner this os path (insert path visited) None ?s0)"
  have eq: "fst (loadConfigurationFileInnerWithCache this os path visited None s) = ?o"
    using miss fresh by (rule withCache_miss_fst)
  show ?thesis
  proof (cases "readFileAsync os path")
    case (Inr fileText)
    from inner_readable_not_missing[OF Inr rewrite combine] inner_readable_truthy[OF Inr] Inr eq
    show ?thesis by auto
  next
    case (Inl e)
    show ?thesis
    proof (cases "isNotExistError e")
      case True
      with Inl eq show ?thesis by (auto simp: inner_missing_without_rig)
    next
      case False
      with Inl eq show ?thesis by (auto simp: inner_unreadable)
    qed
  qed
qed

lemma tryLoad_fst:
  "fst (tryLoadConfigurationFileForProject this os projectPath rig s) =
     (case fst (loadConfigurationFileForProject this os projectPath rig s) of
        Rejects e \<Rightarrow> if isNotExistError e then Fulfills JUndefined else Rejects e
      | Fulfills v \<Rightarrow> Fulfills v
      | NeverSettles \<Rightarrow> NeverSettles)"
  by (simp add: tryLoadConfigurationFileForProject_def split: prod.splits outcome.splits)

lemma load_missing_iff:
  assumes uncached: "configPromiseCache s (getConfigurationFilePathForProject this os projectPath) = None"
    and fallbackUncached:
      "\<forall>rigConfig folder. rig = Some rigConfig \<and> resolvedProfileFolder rigConfig = Inr folder
         \<longrightarrow> configPromiseCache s (pathResolve os folder (projectRelativeFilePath this)) = None"
    and collaborators: "collaboratorsNeverReportMissing this rig"
  shows "((\<exists>e. fst (loadConfigurationFileForProject this os projectPath rig s) = Rejects e \<and> isNotExistError e)
          \<longleftrightarrow> (\<exists>e. readFileAsync os (getConfigurationFilePathForProject this os projectPath) = Inl e
                    \<and> isNotExistError e)
              \<and> (\<forall>rigConfig. rig = Some rigConfig \<and> rigFound rigConfig \<longrightarrow>
                    (\<exists>folder e. resolvedProfileFolder rigConfig = Inr folder
                       \<and> pathResolve os folder (projectRelativeFilePath this)
                           \<noteq> getConfigurationFilePathForProject this os projectPath
                       \<and> readFileAsync os (pathResolve os folder (projectRelativeFilePath this)) = Inl e
                       \<and> isNotExistError e)))
       \<and> (\<forall>v. fst (loadConfigurationFileForProject this os projectPath rig s) = Fulfills v \<longrightarrow> truthy v)"
proof -
  let ?P = "getConfigurationFilePathForProject this os projectPath"
  let ?s0 = "s\<lparr>configPromiseCache := (configPromiseCache s)(?P \<mapsto> Pending)\<rparr>"
  let ?s1 = "s\<lparr>configPromiseCache := (configPromiseCache s)(?P \<mapsto> Pending), readLog := readLog s @ [?P]\<rparr>"
  let ?L = "fst (loadConfigurationFileForProject this os projectPath rig s)"
  from collaborators have
    rewrite: "\<forall>p json e. applyJsonPathMetadata this p json = Inl e \<longrightarrow> \<not> isNotExistError e"
    and combine: "combinersNeverReportMissing (propertyInheritanceTypes this)"
    and folders: "\<forall>rigConfig e. rig = Some rigConfig \<and> resolvedProfileFolder rigConfig = Inl e
            \<longrightarrow> \<not> isNotExistError e"
    unfolding collaboratorsNeverReportMissing_def by blast+
  have L: "?L = fst (loadConfigurationFileInner this os ?P {?P} rig ?s0)"
    using uncached by (simp add: forProject_fst withCache_miss_fst)
  have s1: "?s0\<lparr>readLog := readLog ?s0 @ [?P]\<rparr> = ?s1" by simp
  show ?thesis
  proof (cases "readFileAsync os ?P")
    case (Inr fileText)
    from inner_readable_not_missing[OF Inr rewrite combine] inner_readable_truthy[OF Inr] Inr L
    show ?thesis by auto
  next
    case (Inl e)
    show ?thesis
    proof (cases "isNotExistError e")
      case False
      with Inl L show ?thesis by (auto simp: inner_unreadable)
    next
      case True
      show ?thesis
      proof (cases rig)
        case None
        with Inl True L show ?thesis by (auto simp: inner_missing_without_rig)
      next
        case (Some rigConfig)
        note inner = inner_missing_with_rig[OF Inl True, of this "{?P}" rigConfig ?s0, unfolded s1]
        show ?thesis
        proof (cases "rigFound rigConfig")
          case False
          then have "tryLoadConfigurationFileInRig this os rigConfig {?P} ?s1 = (Fulfills JUndefined, {?P}, ?s1)"
            by (subst tryLoadConfigurationFileInRig.simps) simp
          with inner L Some have "?L = Rejects (NotExist ?P)" by simp
          with Inl True Some False show ?thesis by auto
        next
          case found: True
          show ?thesis
          proof (cases "resolvedProfileFolder rigConfig")
            case (Inl e')
            with folders Some have ne: "\<not> isNotExistError e'" by blast
            from found Inl
            have "tryLoadConfigurationFileInRig this os rigConfig {?P} ?s1 = (Rejects e', {?P}, ?s1)"
              by (subst tryLoadConfigurationFileInRig.simps) simp
            with inner L Some have "?L = Rejects e'" by simp
            with ne Some found Inl show ?thesis by auto
          next
            case (Inr folder)
            let ?R = "pathResolve os folder (projectRelativeFilePath this)"
            obtain out v s2 where
              cand: "loadConfigurationFileInnerWithCache this os ?R {?P} None ?s1 = (out, v, s2)"
              by (cases "loadConfigurationFileInnerWithCache this os ?R {?P} None ?s1") auto
            have rig: "tryLoadConfigurationFileInRig this os rigConfig {?P} ?s1 =
                         (case out of
                            Rejects e' \<Rightarrow> if \<not> isNotExistError e' then (Rejects e', v, s2)
                                          else (Fulfills JUndefined, v, s2)
                          | Fulfills x \<Rightarrow> (Fulfills x, v, s2)
                          | NeverSettles \<Rightarrow> (NeverSettles, v, s2))"
              by (simp add: rig_found[OF found Inr] cand split: outcome.splits)
            have Lout: "?L = (case out of
                               Fulfills x \<Rightarrow> if truthy x then Fulfills x else Rejects (NotExist ?P)
                             | Rejects e' \<Rightarrow> if isNotExistError e' then Rejects (NotExist ?P) else Rejects e'
                             | NeverSettles \<Rightarrow> NeverSettles)"
              using L Some by (simp add: inner rig split: outcome.splits)
            show ?thesis
            proof (cases "?R = ?P")
              case same: True
              have "fst (loadConfigurationFileInnerWithCache this os ?R {?P} None ?s1)
                      = Rejects (LoopDetected ?R)"
                using same by (intro withCache_visited) simp
              with cand have "out = Rejects (LoopDetected ?R)" by simp
              with Lout have "?L = Rejects (LoopDetected ?R)" by simp
              with same Some found Inr show ?thesis by auto
            next
              case other: False
              from fallbackUncached Some Inr have "configPromiseCache s ?R = None" by blast
              with other have miss: "configPromiseCache ?s1 ?R = None" by simp
              from other have fresh: "?R \<notin> {?P}" by simp
              from plain_load_outcome[OF miss fresh rewrite combine, of os] cand
              have iff: "(\<exists>e. out = Rejects e \<and> isNotExistError e)
                           \<longleftrightarrow> (\<exists>e. readFileAsync os ?R = Inl e \<and> isNotExistError e)"
                and tr: "\<forall>x. out = Fulfills x \<longrightarrow> truthy x"
                by simp_all
              show ?thesis
              proof (cases out)
                case NeverSettles
                with Lout iff Some found Inr show ?thesis by auto
              next
                case (Fulfills x)
                with tr have "truthy x" by simp
                with Fulfills Lout iff Some found Inr show ?thesis by auto
              next
                case (Rejects e2)
                show ?thesis
                proof (cases "isNotExistError e2")
                  case True
                  with Rejects Lout have "?L = Rejects (NotExist ?P)" by simp
                  moreover from True Rejects iff
                  have "\<exists>e. readFileAsync os ?R = Inl e \<and> isNotExistError e" by blast
                  ultimately show ?thesis
                    using Inl \<open>isNotExistError e\<close> Some found Inr other by auto
                next
                  case False
                  with Rejects Lout have l: "?L = Rejects e2" by simp
                  from False Rejects iff
                  have "\<not> (\<exists>e. readFileAsync os ?R = Inl e \<and> isNotExistError e)" by blast
                  with l False Some found Inr show ?thesis by auto
                qed
              qed
            qed
          qed
        qed
      qed
    qed
  qed
qed


text \<open>
  Claim C2, as amended. Let the requested path have no cache entry, let the rig's candidate
  path have none either if a rig is given and its profile folder is resolved, and let the
  collaborators (the rewriting of path properties, the custom inheritance functions, the
  resolution of the rig's profile folder) raise no "does not exist" error of their own. Then
  \<open>tryLoadConfigurationFileForProject\<close> returns undefined exactly when reading the requested
  file fails with a "does not exist" error and, if a rig is given and found, its profile folder
  is resolved and its candidate is another path than the requested one, whose reading fails in
  the same way. Every rejection of the load that is not a "does not exist" error is passed on
  unchanged, and so is every value. In particular, when the requested file has an \<open>extends\<close>
  property whose resolution, or whose load, is rejected with a "does not exist" error, the
  result is the rejection \<open>ExtendsUnresolved\<close> naming the file and the reference, not
  undefined.
\<close>

theorem C2_try_load_absent_iff_missing:
  assumes uncached: "configPromiseCache s (getConfigurationFilePathForProject this os projectPath) = None"
    and fallbackUncached:
      "\<forall>rigConfig folder. rig = Some rigConfig \<and> resolvedProfileFolder rigConfig = Inr folder
         \<longrightarrow> configPromiseCache s (pathResolve os folder (projectRelativeFilePath this)) = None"
    and collaborators: "collaboratorsNeverReportMissing this rig"
  shows "(fst (tryLoadConfigurationFileForProject this os projectPath rig s) = Fulfills JUndefined
          \<longleftrightarrow> (\<exists>e. readFileAsync os (getConfigurationFilePathForProject this os projectPath) = Inl e
                    \<and> isNotExistError e)
              \<and> (\<forall>rigConfig. rig = Some rigConfig \<and> rigFound rigConfig \<longrightarrow>
                    (\<exists>folder e. resolvedProfileFolder rigConfig = Inr folder
                       \<and> pathResolve os folder (projectRelativeFilePath this)
                           \<noteq> getConfigurationFilePathForProject this os projectPath
                       \<and> readFileAsync os (pathResolve os folder (projectRelativeFilePath this)) = Inl e
                       \<and> isNotExistError e)))
       \<and> (\<forall>e. fst (loadConfigurationFileForProject this os projectPath rig s) = Rejects e
             \<longrightarrow> fst (tryLoadConfigurationFileForProject this os projectPath rig s)
                   = (if isNotExistError e then Fulfills JUndefined else Rejects e))
       \<and> (\<forall>v. fst (loadConfigurationFileForProject this os projectPath rig s) = Fulfills v
             \<longrightarrow> fst (tryLoadConfigurationFileForProject this os projectPath rig s) = Fulfills v)
       \<and> (\<forall>fileText json configurationJson.
             readFileAsync os (getConfigurationFilePathForProject this os projectPath) = Inr fileText
             \<and> parseString fileText = Inr json
             \<and> applyJsonPathMetadata this (getConfigurationFilePathForProject this os projectPath)
                  (annotateProperties (getConfigurationFilePathForProject this os projectPath) json)
                 = Inr configurationJson
             \<and> configurationJson \<noteq> JNull \<and> configurationJson \<noteq> JUndefined
             \<and> truthy (getProp configurationJson ''extends'')
             \<and> ((\<exists>e. resolveModule os (getProp configurationJson ''extends'')
                         (pathDirname os (getConfigurationFilePathForProject this os projectPath)) = Inl e
                       \<and> isNotExistError e)
                  \<or> (\<exists>parent e.
                        resolveModule os (getProp configurationJson ''extends'')
                          (pathDirname os (getConfigurationFilePathForProject this os projectPath)) = Inr parent
                      \<and> fst (loadConfigurationFileInnerWithCache this os parent
                               {getConfigurationFilePathForProject this os projectPath} None
                               (s\<lparr>configPromiseCache := (configPromiseCache s)
                                      (getConfigurationFilePathForProject this os projectPath \<mapsto> Pending),
                                   readLog := readLog s
                                      @ [getConfigurationFilePathForProject this os projectPath]\<rparr>))
                          = Rejects e
                      \<and> isNotExistError e))
             \<longrightarrow> fst (tryLoadConfigurationFileForProject this os projectPath rig s)
                   = Rejects (ExtendsUnresolved (getConfigurationFilePathForProject this os projectPath)
                                (getProp configurationJson ''extends'')))"
proof (intro conjI allI impI)
  let ?P = "getConfigurationFilePathForProject this os projectPath"
  let ?L = "fst (loadConfigurationFileForProject this os projectPath rig s)"
  note m = load_missing_iff[OF uncached fallbackUncached collaborators]
  from m have tr: "\<forall>v. ?L = Fulfills v \<longrightarrow> truthy v" by blast
  have "fst (tryLoadConfigurationFileForProject this os projectPath rig s) = Fulfills JUndefined
          \<longleftrightarrow> (\<exists>e. ?L = Rejects e \<and> isNotExistError e)"
    using tr by (cases ?L) (auto simp: tryLoad_fst)
  with m show "fst (tryLoadConfigurationFileForProject this os projectPath rig s) = Fulfills JUndefined
          \<longleftrightarrow> (\<exists>e. readFileAsync os ?P = Inl e \<and> isNotExistError e)
              \<and> (\<forall>rigConfig. rig = Some rigConfig \<and> rigFound rigConfig \<longrightarrow>
                    (\<exists>folder e. resolvedProfileFolder rigConfig = Inr folder
                       \<and> pathResolve os folder (projectRelativeFilePath this) \<noteq> ?P
                       \<and> readFileAsync os (pathResolve os folder (projectRelativeFilePath this)) = Inl e
                       \<and> isNotExistError e))"
    by simp
next
  fix e
  assume "fst (loadConfigurationFileForProject this os projectPath rig s) = Rejects e"
  then show "fst (tryLoadConfigurationFileForProject this os projectPath rig s)
                   = (if isNotExistError e then Fulfills JUndefined else Rejects e)"
    by (simp add: tryLoad_fst)
next
  fix v
  assume "fst (loadConfigurationFileForProject this os projectPath rig s) = Fulfills v"
  then show "fst (tryLoadConfigurationFileForProject this os projectPath rig s) = Fulfills v"
    by (simp add: tryLoad_fst)
next
  fix fileText json configurationJson
  let ?P = "getConfigurationFilePathForProject this os projectPath"
  let ?s0 = "s\<lparr>configPromiseCache := (configPromiseCache s)(?P \<mapsto> Pending)\<rparr>"
  let ?s1 = "s\<lparr>configPromiseCache := (configPromiseCache s)(?P \<mapsto> Pending), readLog := readLog s @ [?P]\<rparr>"
  let ?x = "getProp configurationJson ''extends''"
  assume a: "readFileAsync os ?P = Inr fileText
             \<and> parseString fileText = Inr json
             \<and> applyJsonPathMetadata this ?P (annotateProperties ?P json) = Inr configurationJson
             \<and> configurationJson \<noteq> JNull \<and> configurationJson \<noteq> JUndefined
             \<and> truthy ?x
             \<and> ((\<exists>e. resolveModule os ?x (pathDirname os ?P) = Inl e \<and> isNotExistError e)
                  \<or> (\<exists>parent e. resolveModule os ?x (pathDirname os ?P) = Inr parent
                      \<and> fst (loadConfigurationFileInnerWithCache this os parent {?P} None ?s1) = Rejects e
                      \<and> isNotExistError e))"
  then have f: "readFileAsync os ?P = Inr fileText" "parseString fileText = Inr json"
    "applyJsonPathMetadata this ?P (annotateProperties ?P json) = Inr configurationJson"
    "configurationJson \<noteq> JNull" "configurationJson \<noteq> JUndefined" "truthy ?x"
    by simp_all
  have s1: "?s0\<lparr>readLog := readLog ?s0 @ [?P]\<rparr> = ?s1" by simp
  have L: "fst (loadConfigurationFileForProject this os projectPath rig s)
             = fst (loadConfigurationFileInner this os ?P {?P} rig ?s0)"
    using uncached by (simp add: forProject_fst withCache_miss_fst)
  from a consider
    (unresolved) e where "resolveModule os ?x (pathDirname os ?P) = Inl e" "isNotExistError e"
    | (ancestor) parent e where "resolveModule os ?x (pathDirname os ?P) = Inr parent"
        "fst (loadConfigurationFileInnerWithCache this os parent {?P} None ?s1) = Rejects e"
        "isNotExistError e"
    by blast
  then have "fst (loadConfigurationFileInner this os ?P {?P} rig ?s0) = Rejects (ExtendsUnresolved ?P ?x)"
  proof cases
    case unresolved
    from inner_unresolved[OF f unresolved(1), of "{?P}" rig ?s0] unresolved(2)
    show ?thesis by (simp add: wrapExtendsError_def)
  next
    case ancestor
    obtain out v s2 where
      l: "loadConfigurationFileInnerWithCache this os parent {?P} None ?s1 = (out, v, s2)"
      by (cases "loadConfigurationFileInnerWithCache this os parent {?P} None ?s1") auto
    with ancestor(2) have "out = Rejects e" by simp
    with l ancestor(3) inner_with_parent[OF f ancestor(1), of "{?P}" rig ?s0, unfolded s1]
    show ?thesis by (simp add: wrapExtendsError_def)
  qed
  with L show "fst (tryLoadConfigurationFileForProject this os projectPath rig s)
                   = Rejects (ExtendsUnresolved ?P ?x)"
    by (simp add: tryLoad_fst)
qed

theorem C2_try_load_absent_iff_missing_witness:
  "configPromiseCache newLoaderState (getConfigurationFilePathForProject plainConfig emptyDisk ''/p'') = None
   \<and> collaboratorsNeverReportMissing plainConfig None
   \<and> readFileAsync emptyDisk (getConfigurationFilePathForProject plainConfig emptyDisk ''/p'')
       = Inl (NotExist ''/p/a.json'')
   \<and> fst (tryLoadConfigurationFileForProject plainConfig emptyDisk ''/p'' None newLoaderState)
       = Fulfills JUndefined
   \<and> readFileAsync danglingDisk (getConfigurationFilePathForProject plainConfig danglingDisk ''/p'')
       = Inr (WellFormed danglingJson)
   \<and> fst (loadConfigurationFileInnerWithCache plainConfig danglingDisk ''/p/gone.json'' {''/p/a.json''} None
            primaryPending) = Rejects (NotExist ''/p/gone.json'')
   \<and> fst (tryLoadConfigurationFileForProject plainConfig danglingDisk ''/p'' None newLoaderState)
       = Rejects (ExtendsUnresolved ''/p/a.json'' (JStr ''gone.json''))"
proof -
  let ?P = "getConfigurationFilePathForProject plainConfig danglingDisk ''/p''"
  let ?cfg = "annotateProperties ?P danglingJson"
  let ?s1 = "newLoaderState\<lparr>configPromiseCache := (configPromiseCache newLoaderState)(?P \<mapsto> Pending),
                              readLog := readLog newLoaderState @ [?P]\<rparr>"
  have uncached: "configPromiseCache newLoaderState (getConfigurationFilePathForProject plainConfig emptyDisk ''/p'') = None"
    "configPromiseCache newLoaderState ?P = None"
    by (simp_all add: newLoaderState_def)
  have noRig: "\<forall>rigConfig folder. (None :: rigConfig option) = Some rigConfig
                 \<and> resolvedProfileFolder rigConfig = Inr folder
         \<longrightarrow> configPromiseCache newLoaderState (pathResolve os folder (projectRelativeFilePath plainConfig)) = None"
    for os
    by simp
  have collab: "collaboratorsNeverReportMissing plainConfig None"
    by (simp add: collaboratorsNeverReportMissing_def plainConfig_def)
  have missing: "readFileAsync emptyDisk (getConfigurationFilePathForProject plainConfig emptyDisk ''/p'')
       = Inl (NotExist ''/p/a.json'')"
    by code_simp
  from C2_try_load_absent_iff_missing[OF uncached(1) noRig collab] missing
  have absent: "fst (tryLoadConfigurationFileForProject plainConfig emptyDisk ''/p'' None newLoaderState)
       = Fulfills JUndefined"
    by simp
  have read: "readFileAsync danglingDisk ?P = Inr (WellFormed danglingJson)"
    by code_simp
  have parse: "parseString (WellFormed danglingJson) = Inr danglingJson" by simp
  have rewritten: "applyJsonPathMetadata plainConfig ?P (annotateProperties ?P danglingJson) = Inr ?cfg"
    by (simp add: plainConfig_def)
  have shape: "?cfg \<noteq> JNull" "?cfg \<noteq> JUndefined" "truthy (getProp ?cfg ''extends'')"
    by code_simp+
  have resolved: "resolveModule danglingDisk (getProp ?cfg ''extends'') (pathDirname danglingDisk ?P)
                  = Inr ''/p/gone.json''"
    by code_simp
  have ancestor: "fst (loadConfigurationFileInnerWithCache plainConfig danglingDisk ''/p/gone.json'' {?P} None ?s1)
                    = Rejects (NotExist ''/p/gone.json'')"
    by code_simp
  have gone: "fst (loadConfigurationFileInnerWithCache plainConfig danglingDisk ''/p/gone.json'' {''/p/a.json''} None
            primaryPending) = Rejects (NotExist ''/p/gone.json'')"
    by code_simp
  have names: "ExtendsUnresolved ?P (getProp ?cfg ''extends'') = ExtendsUnresolved ''/p/a.json'' (JStr ''gone.json'')"
    by code_simp
  have "\<exists>parent e. resolveModule danglingDisk (getProp ?cfg ''extends'') (pathDirname danglingDisk ?P) = Inr parent
          \<and> fst (loadConfigurationFileInnerWithCache plainConfig danglingDisk parent {?P} None ?s1) = Rejects e
          \<and> isNotExistError e"
    using resolved ancestor by (intro exI[of _ "''/p/gone.json''"] exI[of _ "NotExist ''/p/gone.json''"]) simp
  with read parse rewritten shape
  have premise: "readFileAsync danglingDisk ?P = Inr (WellFormed danglingJson)
             \<and> parseString (WellFormed danglingJson) = Inr danglingJson
             \<and> applyJsonPathMetadata plainConfig ?P (annotateProperties ?P danglingJson) = Inr ?cfg
             \<and> ?cfg \<noteq> JNull \<and> ?cfg \<noteq> JUndefined
             \<and> truthy (getProp ?cfg ''extends'')
             \<and> ((\<exists>e. resolveModule danglingDisk (getProp ?cfg ''extends'') (pathDirname danglingDisk ?P) = Inl e
                       \<and> isNotExistError e)
                  \<or> (\<exists>parent e.
                        resolveModule danglingDisk (getProp ?cfg ''extends'') (pathDirname danglingDisk ?P) = Inr parent
                      \<and> fst (loadConfigurationFileInnerWithCache plainConfig danglingDisk parent {?P} None ?s1)
                          = Rejects e
                      \<and> isNotExistError e))"
    by blast
  from C2_try_load_absent_iff_missing[OF uncached(2) noRig collab,
      THEN conjunct2, THEN conjunct2, THEN conjunct2, rule_format, OF premise] names
  have wrapped: "fst (tryLoadConfigurationFileForProject plainConfig danglingDisk ''/p'' None newLoaderState)
                   = Rejects (ExtendsUnresolved ''/p/a.json'' (JStr ''gone.json''))"
    by simp
  from uncached(1) collab missing absent read gone wrapped show ?thesis by blast
qed

text \<open>
  Claim C2 as stated fails in both directions. With nothing on disk and a rig whose profile
  folder is the project folder, neither the requested file nor the fallback exists, yet the
  result is the rejection \<open>LoopDetected\<close>: the fallback is loaded with the visited set of the
  first attempt. After a load without rig was rejected because the requested file is missing, a
  call with a rig that has the file returns undefined: the rejected promise of the requested
  path is taken from the cache and the rig is not consulted, whereas the same call on a new
  instance returns the rig's file. Undefined is returned as well when the rig's candidate path
  has a rejected promise in the cache from a time when that file was missing. And when the
  rewriting of path properties itself reports a missing file, the result is undefined although
  the requested file exists.
\<close>

theorem C2_absent_not_exactly_missing_counterexample:
  "readFileAsync emptyDisk ''/p/a.json'' = Inl (NotExist ''/p/a.json'')
   \<and> getConfigurationFilePathForProject plainConfig emptyDisk ''/p'' = ''/p/a.json''
   \<and> pathResolve emptyDisk ''/p'' (projectRelativeFilePath plainConfig) = ''/p/a.json''
   \<and> fst (tryLoadConfigurationFileForProject plainConfig emptyDisk ''/p'' (Some rigInProject) newLoaderState)
       = Rejects (LoopDetected ''/p/a.json'')
   \<and> fst (loadConfigurationFileForProject plainConfig rigNamedDisk ''/p'' None newLoaderState)
       = Rejects (NotExist ''/p/a.json'')
   \<and> readFileAsync rigNamedDisk ''/rig/a.json'' = Inr (WellFormed namedJson)
   \<and> fst (tryLoadConfigurationFileForProject plainConfig rigNamedDisk ''/p'' (Some rigAt)
            (snd (loadConfigurationFileForProject plainConfig rigNamedDisk ''/p'' None newLoaderState)))
       = Fulfills JUndefined
   \<and> fst (loadConfigurationFileForProject plainConfig emptyDisk ''/rig'' None newLoaderState)
       = Rejects (NotExist ''/rig/a.json'')
   \<and> fst (tryLoadConfigurationFileForProject plainConfig rigNamedDisk ''/p'' (Some rigAt)
            (snd (loadConfigurationFileForProject plainConfig emptyDisk ''/rig'' None newLoaderState)))
       = Fulfills JUndefined
   \<and> fst (tryLoadConfigurationFileForProject plainConfig rigNamedDisk ''/p'' (Some rigAt) newLoaderState)
       = Fulfills (annotateProperties ''/rig/a.json'' namedJson)
   \<and> readFileAsync namedDisk ''/p/a.json'' = Inr (WellFormed namedJson)
   \<and> fst (tryLoadConfigurationFileForProject resolverReportsMissing namedDisk ''/p'' None newLoaderState)
       = Fulfills JUndefined"
  by code_simp

end
